theory Spec2Isabelle
  imports Complex_Main "HOL-Library.Multiset" "HOL-Library.Sublist" "HOL-Library.AList"
begin

section \<open>PySQL: the DataManager class of \<^verbatim>\<open>src/PySQL/DataManager.py\<close>\<close>

text \<open>
  The class has two halves. The statistics engine (\<^verbatim>\<open>get_categorical_var_analysis\<close>,
  \<^verbatim>\<open>get_numerical_var_analysis\<close> and their helpers) is pure Python over a pandas
  DataFrame; the store gateway (\<^verbatim>\<open>_create_table\<close>, \<^verbatim>\<open>create_and_fill_table\<close>,
  \<^verbatim>\<open>get_table\<close>, \<^verbatim>\<open>get_column_names\<close>, \<^verbatim>\<open>_connect\<close>) builds SQL text and talks
  to psycopg2. Both halves are embedded below, the pandas and psycopg2 operations the
  source calls being modelled by small functions named after them.
\<close>

subsection \<open>Python values and exceptions\<close>

text \<open>
  A cell of a DataFrame is missing (\<open>NaN\<close>), a text or a number. Numbers are exact
  rationals: the binary rounding of IEEE doubles is not part of the model.
\<close>

datatype cell = NaN | Str string | Num rat

type_synonym series = "cell list"

text \<open>
  A DataFrame: its columns in order, each a name and a series. pandas keeps all
  columns at the length of the index; \<open>wf_df\<close> below states that.
\<close>

type_synonym dataframe = "(string \<times> series) list"

text \<open>
  The exceptions. \<open>Exception m\<close> is Python's generic \<^verbatim>\<open>Exception(m)\<close>, the only class
  the gateway's \<^verbatim>\<open>raise\<close> statements construct; \<open>KeyError\<close>, \<open>ValueError\<close> and
  \<open>ZeroDivisionError\<close> are raised by pandas and by Python's integer division. The
  last four constructors are the error kinds of the specification's taxonomy: no
  statement of the source raises them, they are here so that statements about the
  kind of a raised error can be written down.
\<close>

datatype exn =
    Exception "string option"
  | KeyError
  | ValueError
  | ZeroDivisionError
  | ConnectionError "string option"
  | SchemaError "string option"
  | LoadError "string option"
  | QueryError "string option"

text \<open>
  Two conversions of Python depend on the dtype of a column and on the float
  algorithms of the interpreter: \<^verbatim>\<open>str(x)\<close> of a number, and \<^verbatim>\<open>float(s)\<close> of a text
  (\<open>None\<close>: the text is no float literal and \<^verbatim>\<open>astype("float")\<close> raises ValueError;
  \<open>Some None\<close>: it reads as nan). They are parameters of the model.
\<close>

record pyenv =
  str_of_num :: "rat \<Rightarrow> string"
  float_of_str :: "string \<Rightarrow> rat option option"

fun py_str :: "pyenv \<Rightarrow> cell \<Rightarrow> string" where
  "py_str E NaN = ''nan''"
| "py_str E (Str s) = s"
| "py_str E (Num q) = str_of_num E q"

subsection \<open>The pandas operations the source calls\<close>

definition columns :: "dataframe \<Rightarrow> string list" where
  "columns df = map fst df"

text \<open>\<^verbatim>\<open>df[col]\<close>: KeyError when no column has that name.\<close>

definition getitem :: "dataframe \<Rightarrow> string \<Rightarrow> exn + series" where
  "getitem df col = (case map_of df col of None \<Rightarrow> Inl KeyError | Some s \<Rightarrow> Inr s)"

text \<open>\<^verbatim>\<open>df.shape[0]\<close>: the number of rows.\<close>

definition shape0 :: "dataframe \<Rightarrow> nat" where
  "shape0 df = (case df of [] \<Rightarrow> 0 | (c, s) # rest \<Rightarrow> length s)"

definition wf_df :: "dataframe \<Rightarrow> bool" where
  "wf_df df = (distinct (columns df) \<and> list_all (\<lambda>(c, s). length s = shape0 df) df)"

text \<open>
  \<^verbatim>\<open>Series.unique()\<close>: the distinct values in order of first appearance. It does not
  drop missing values: a series with missing cells has one \<open>NaN\<close> among its uniques.
\<close>

fun unique :: "'a list \<Rightarrow> 'a list" where
  "unique [] = []"
| "unique (x # xs) = x # unique (filter (\<lambda>y. y \<noteq> x) xs)"

definition dropna :: "series \<Rightarrow> series" where
  "dropna s = filter (\<lambda>c. c \<noteq> NaN) s"

text \<open>\<^verbatim>\<open>s.isna().sum()\<close>\<close>

definition isna_sum :: "series \<Rightarrow> nat" where
  "isna_sum s = length (filter (\<lambda>c. c = NaN) s)"

text \<open>\<^verbatim>\<open>s == v\<close>: the boolean mask; a missing cell equals nothing, a missing \<open>v\<close> too.\<close>

definition eq_mask :: "series \<Rightarrow> cell \<Rightarrow> bool list" where
  "eq_mask s v = map (\<lambda>c. c \<noteq> NaN \<and> c = v) s"

text \<open>\<^verbatim>\<open>m1 & m2\<close>\<close>

definition and_mask :: "bool list \<Rightarrow> bool list \<Rightarrow> bool list" where
  "and_mask m1 m2 = map (\<lambda>(a, b). a \<and> b) (zip m1 m2)"

text \<open>\<^verbatim>\<open>s[mask]\<close>, and \<^verbatim>\<open>df[mask]\<close> (also \<^verbatim>\<open>df.loc[mask, col]\<close>, a masked series).\<close>

definition select :: "bool list \<Rightarrow> 'a list \<Rightarrow> 'a list" where
  "select m s = map snd (filter fst (zip m s))"

definition df_select :: "dataframe \<Rightarrow> bool list \<Rightarrow> dataframe" where
  "df_select df m = map (\<lambda>(c, s). (c, select m s)) df"

subsection \<open>Formatting\<close>

definition digit_char :: "int \<Rightarrow> char" where
  "digit_char d = ''0123456789'' ! nat d"

text \<open>\<^verbatim>\<open>str(n)\<close> of a non-negative integer.\<close>

fun str_int :: "int \<Rightarrow> string" where
  "str_int n = (if n < 10 then [digit_char n] else str_int (n div 10) @ [digit_char (n mod 10)])"

declare str_int.simps [simp del]

text \<open>A non-negative number of hundredths, printed with two decimals.\<close>

definition fixed2 :: "int \<Rightarrow> string" where
  "fixed2 h = str_int (h div 100) @ ''.'' @ [digit_char (h mod 100 div 10), digit_char (h mod 10)]"

text \<open>Rounding to the nearest integer, ties to even, as the format specifications do.\<close>

definition round_half_even :: "rat \<Rightarrow> int" where
  "round_half_even q =
     (let f = \<lfloor>q\<rfloor>; d = q - of_int f
      in if d < 1 / 2 then f else if 1 / 2 < d then f + 1 else if even f then f else f + 1)"

text \<open>
  \<^verbatim>\<open>f"{x:.2%}"\<close> for \<open>x = ct / tot\<close>. In the source this quotient is taken with
  \<open>tot\<close> (the source's \<^verbatim>\<open>total\<close>) a numpy integer for the "All" entry (a zero
  divisor gives nan or inf, no exception) and with two Python integers for a group
  entry (a zero divisor raises, see \<open>categorical_group_loop\<close>).
\<close>

definition percent2 :: "nat \<Rightarrow> nat \<Rightarrow> string" where
  "percent2 ct tot =
     (if tot = 0 then (if ct = 0 then ''nan%'' else ''inf%'')
      else fixed2 (round_half_even (10000 * of_nat ct / of_nat tot)) @ ''%'')"

text \<open>\<^verbatim>\<open>f"{ct} ({ct/total:.2%})"\<close>\<close>

definition count_percent :: "nat \<Rightarrow> nat \<Rightarrow> string" where
  "count_percent ct tot = str_int (int ct) @ '' ('' @ percent2 ct tot @ '')''"

subsection \<open>The results dictionary\<close>

text \<open>
  A Python dict keeps its keys in insertion order; assigning to a key that is
  already there replaces the value in place. \<open>AList.update\<close> does the same on an
  association list.
\<close>

type_synonym results = "(string \<times> string list) list"

definition VAR_NAME :: string where
  "VAR_NAME = ''Variable Name''"

definition ALL_KEY :: string where
  "ALL_KEY = ''All''"

text \<open>\<^verbatim>\<open>results[key].append(x)\<close>: KeyError when the key is absent.\<close>

definition dict_append :: "string \<Rightarrow> string \<Rightarrow> results \<Rightarrow> exn + results" where
  "dict_append key x results =
     (case map_of results key of
        None \<Rightarrow> Inl KeyError
      | Some l \<Rightarrow> Inr (AList.update key (l @ [x]) results))"

text \<open>\<^verbatim>\<open>f"{group} {group_val}"\<close>\<close>

definition group_key :: "pyenv \<Rightarrow> string \<Rightarrow> cell \<Rightarrow> string" where
  "group_key E grp group_val = grp @ '' '' @ py_str E group_val"

text \<open>\<^verbatim>\<open>_initialize_results_dict\<close> (lines 209-231).\<close>

definition initialize_results_dict ::
    "pyenv \<Rightarrow> dataframe \<Rightarrow> string option \<Rightarrow> exn + (results \<times> cell list option)" where
  "initialize_results_dict E df grp =
     (let results = [(VAR_NAME, []), (ALL_KEY, [])]
      in case grp of
           None \<Rightarrow> Inr (results, None)
         | Some g \<Rightarrow>
             (case getitem df g of
                Inl e \<Rightarrow> Inl e
              | Inr s \<Rightarrow>
                  (let group_values = unique s
                   in Inr (fold (\<lambda>group_val r. AList.update (group_key E g group_val) [] r)
                             group_values results,
                           Some group_values))))"

text \<open>
  \<^verbatim>\<open>DataFrame(results)\<close>: pandas raises ValueError ("All arrays must be of the same
  length") unless all the lists have one length.
\<close>

definition aligned :: "results \<Rightarrow> bool" where
  "aligned results =
     (case results of
        [] \<Rightarrow> True
      | (k, l) # rest \<Rightarrow> list_all (\<lambda>(k', l'). length l' = length l) rest)"

definition DataFrame :: "results \<Rightarrow> exn + results" where
  "DataFrame results = (if aligned results then Inr results else Inl ValueError)"

text \<open>The columns the statistics are computed on (lines 283-286 and 362-365).\<close>

definition analysis_cols :: "dataframe \<Rightarrow> string option \<Rightarrow> string list" where
  "analysis_cols df grp =
     (case grp of
        Some g \<Rightarrow> filter (\<lambda>col. col \<noteq> g) (columns df)
      | None \<Rightarrow> columns df)"

subsection \<open>\<^verbatim>\<open>get_categorical_var_analysis\<close> (lines 264-325)\<close>

text \<open>
  Line 304, \<^verbatim>\<open>df[df[col] == category].shape[0]\<close>; line 315,
  \<^verbatim>\<open>df.loc[df[group] == group_val, col].dropna().shape[0]\<close>; lines 318-321,
  \<^verbatim>\<open>df[(df[group] == group_val) & (df[col] == category)].shape[0]\<close>. Here \<open>s\<close> is
  \<^verbatim>\<open>df[col]\<close> and \<open>g\<close> is \<^verbatim>\<open>df[group]\<close>.
\<close>

definition category_total :: "dataframe \<Rightarrow> series \<Rightarrow> cell \<Rightarrow> nat" where
  "category_total df s category = shape0 (df_select df (eq_mask s category))"

definition group_total :: "series \<Rightarrow> cell \<Rightarrow> series \<Rightarrow> nat" where
  "group_total g group_val s = length (dropna (select (eq_mask g group_val) s))"

definition sub_category_total :: "dataframe \<Rightarrow> series \<Rightarrow> cell \<Rightarrow> series \<Rightarrow> cell \<Rightarrow> nat" where
  "sub_category_total df g group_val s category =
     shape0 (df_select df (and_mask (eq_mask g group_val) (eq_mask s category)))"

text \<open>
  The loop over the group values (lines 312-323). The two counts are Python
  integers, so a group without a non-missing value in the column raises
  ZeroDivisionError at line 322.
\<close>

fun categorical_group_loop ::
    "pyenv \<Rightarrow> dataframe \<Rightarrow> string \<Rightarrow> series \<Rightarrow> cell \<Rightarrow> cell list \<Rightarrow> results \<Rightarrow> exn + results" where
  "categorical_group_loop E df grp s category [] results = Inr results"
| "categorical_group_loop E df grp s category (group_val # rest) results =
     (case getitem df grp of
        Inl e \<Rightarrow> Inl e
      | Inr g \<Rightarrow>
          (let gt = group_total g group_val s;
               sct = sub_category_total df g group_val s category
           in if gt = 0 then Inl ZeroDivisionError
              else (case dict_append (group_key E grp group_val) (count_percent sct gt) results of
                      Inl e \<Rightarrow> Inl e
                    | Inr results' \<Rightarrow> categorical_group_loop E df grp s category rest results')))"

text \<open>The loop over the categories of one column (lines 301-323).\<close>

fun category_loop ::
    "pyenv \<Rightarrow> dataframe \<Rightarrow> string option \<Rightarrow> cell list option \<Rightarrow> string \<Rightarrow> series \<Rightarrow> nat \<Rightarrow>
     cell list \<Rightarrow> results \<Rightarrow> exn + results" where
  "category_loop E df grp group_values col s tot [] results = Inr results"
| "category_loop E df grp group_values col s tot (category # rest) results =
     (case dict_append VAR_NAME (col @ '' : '' @ py_str E category) results of
        Inl e \<Rightarrow> Inl e
      | Inr r1 \<Rightarrow>
          (case dict_append ALL_KEY (count_percent (category_total df s category) tot) r1 of
             Inl e \<Rightarrow> Inl e
           | Inr r2 \<Rightarrow>
               (case (case (grp, group_values) of
                        (Some g, Some gvs) \<Rightarrow> categorical_group_loop E df g s category gvs r2
                      | _ \<Rightarrow> Inr r2) of
                  Inl e \<Rightarrow> Inl e
                | Inr r3 \<Rightarrow> category_loop E df grp group_values col s tot rest r3)))"

text \<open>The loop over the columns (lines 292-323).\<close>

fun categorical_col_loop ::
    "pyenv \<Rightarrow> dataframe \<Rightarrow> string option \<Rightarrow> cell list option \<Rightarrow> string list \<Rightarrow> results \<Rightarrow>
     exn + results" where
  "categorical_col_loop E df grp group_values [] results = Inr results"
| "categorical_col_loop E df grp group_values (col # rest) results =
     (case getitem df col of
        Inl e \<Rightarrow> Inl e
      | Inr s \<Rightarrow>
          (let categories = unique (dropna s);
               tot = shape0 df - isna_sum s
           in case category_loop E df grp group_values col s tot categories results of
                Inl e \<Rightarrow> Inl e
              | Inr r \<Rightarrow> categorical_col_loop E df grp group_values rest r))"

definition get_categorical_var_analysis ::
    "pyenv \<Rightarrow> dataframe \<Rightarrow> string option \<Rightarrow> exn + results" where
  "get_categorical_var_analysis E df grp =
     (case initialize_results_dict E df grp of
        Inl e \<Rightarrow> Inl e
      | Inr (results, group_values) \<Rightarrow>
          (case categorical_col_loop E df grp group_values (analysis_cols df grp) results of
             Inl e \<Rightarrow> Inl e
           | Inr r \<Rightarrow> DataFrame r))"

subsection \<open>\<^verbatim>\<open>get_numerical_var_analysis\<close> (lines 327-385)\<close>

text \<open>
  \<^verbatim>\<open>Series.astype("float")\<close>: a missing cell stays missing, a number is itself, a text
  goes through \<^verbatim>\<open>float()\<close>.
\<close>

fun to_float :: "pyenv \<Rightarrow> cell \<Rightarrow> exn + rat option" where
  "to_float E NaN = Inr None"
| "to_float E (Num q) = Inr (Some q)"
| "to_float E (Str s) = (case float_of_str E s of None \<Rightarrow> Inl ValueError | Some v \<Rightarrow> Inr v)"

fun astype_float :: "pyenv \<Rightarrow> series \<Rightarrow> exn + rat option list" where
  "astype_float E [] = Inr []"
| "astype_float E (c # cs) =
     (case to_float E c of
        Inl e \<Rightarrow> Inl e
      | Inr x \<Rightarrow> (case astype_float E cs of Inl e \<Rightarrow> Inl e | Inr xs \<Rightarrow> Inr (x # xs)))"

text \<open>The reductions of pandas skip missing values (\<^verbatim>\<open>skipna=True\<close>).\<close>

fun skipna :: "rat option list \<Rightarrow> rat list" where
  "skipna [] = []"
| "skipna (None # xs) = skipna xs"
| "skipna (Some q # xs) = q # skipna xs"

text \<open>
  A float result: nan, an exact value, or the square root of an exact non-negative
  value (a standard deviation is kept as the root of its variance).
\<close>

datatype pyfloat = Nan | Fin rat | Root rat

text \<open>\<^verbatim>\<open>Series.mean()\<close>: nan on no values.\<close>

definition mean :: "rat list \<Rightarrow> pyfloat" where
  "mean xs = (if xs = [] then Nan else Fin (sum_list xs / of_nat (length xs)))"

text \<open>
  \<^verbatim>\<open>Series.std()\<close>: the sample standard deviation (\<^verbatim>\<open>ddof=1\<close>), nan on fewer than two
  values.
\<close>

definition std :: "rat list \<Rightarrow> pyfloat" where
  "std xs =
     (if length xs < 2 then Nan
      else (let m = sum_list xs / of_nat (length xs)
            in Root (sum_list (map (\<lambda>x. (x - m) * (x - m)) xs) / of_nat (length xs - 1))))"

definition min_of :: "rat list \<Rightarrow> pyfloat" where
  "min_of xs = (case xs of [] \<Rightarrow> Nan | x # rest \<Rightarrow> Fin (fold min rest x))"

definition max_of :: "rat list \<Rightarrow> pyfloat" where
  "max_of xs = (case xs of [] \<Rightarrow> Nan | x # rest \<Rightarrow> Fin (fold max rest x))"

text \<open>\<^verbatim>\<open>get_numerical_column_stats\<close> (lines 327-345).\<close>

definition get_numerical_column_stats ::
    "pyenv \<Rightarrow> dataframe \<Rightarrow> string \<Rightarrow> exn + (pyfloat \<times> pyfloat \<times> pyfloat \<times> pyfloat)" where
  "get_numerical_column_stats E df col =
     (case getitem df col of
        Inl e \<Rightarrow> Inl e
      | Inr s \<Rightarrow>
          (case astype_float E s of
             Inl e \<Rightarrow> Inl e
           | Inr numerical_data \<Rightarrow>
               (let v = skipna numerical_data in Inr (mean v, std v, min_of v, max_of v))))"

text \<open>The integer square root, rounded down.\<close>

fun isqrt :: "int \<Rightarrow> int" where
  "isqrt n =
     (if n < 2 then n
      else (let r = 2 * isqrt (n div 4) in if (r + 1) * (r + 1) \<le> n then r + 1 else r))"

declare isqrt.simps [simp del]

text \<open>The integer nearest to the square root of \<open>y\<close>, ties to even.\<close>

definition round_sqrt :: "rat \<Rightarrow> int" where
  "round_sqrt y =
     (let m = isqrt \<lfloor>4 * y\<rfloor>; n = m div 2
      in if even m then n
         else if of_int (m * m) = 4 * y then (if even n then n else n + 1)
         else n + 1)"

text \<open>\<^verbatim>\<open>f"{x:.2f}"\<close>\<close>

fun format_2f :: "pyfloat \<Rightarrow> string" where
  "format_2f Nan = ''nan''"
| "format_2f (Fin q) = (if q < 0 then ''-'' else []) @ fixed2 (round_half_even (100 * \<bar>q\<bar>))"
| "format_2f (Root v) = fixed2 (round_sqrt (10000 * v))"

text \<open>\<^verbatim>\<open>f"{mean:.2f} ({std:.2f}) [{min:.2f}, {max:.2f}]"\<close> (lines 373 and 382).\<close>

fun stats_str :: "pyfloat \<times> pyfloat \<times> pyfloat \<times> pyfloat \<Rightarrow> string" where
  "stats_str (m, s, lo, hi) =
     format_2f m @ '' ('' @ format_2f s @ '') ['' @ format_2f lo @ '', '' @ format_2f hi @ '']''"

text \<open>The loop over the group values (lines 377-383).\<close>

fun numerical_group_loop ::
    "pyenv \<Rightarrow> dataframe \<Rightarrow> string \<Rightarrow> string \<Rightarrow> cell list \<Rightarrow> results \<Rightarrow> exn + results" where
  "numerical_group_loop E df grp col [] results = Inr results"
| "numerical_group_loop E df grp col (group_val # rest) results =
     (case getitem df grp of
        Inl e \<Rightarrow> Inl e
      | Inr g \<Rightarrow>
          (let df_group = df_select df (eq_mask g group_val)
           in case get_numerical_column_stats E df_group col of
                Inl e \<Rightarrow> Inl e
              | Inr st \<Rightarrow>
                  (case dict_append (group_key E grp group_val) (stats_str st) results of
                     Inl e \<Rightarrow> Inl e
                   | Inr results' \<Rightarrow> numerical_group_loop E df grp col rest results')))"

text \<open>The loop over the columns (lines 368-383).\<close>

fun numerical_col_loop ::
    "pyenv \<Rightarrow> dataframe \<Rightarrow> string option \<Rightarrow> cell list option \<Rightarrow> string list \<Rightarrow> results \<Rightarrow>
     exn + results" where
  "numerical_col_loop E df grp group_values [] results = Inr results"
| "numerical_col_loop E df grp group_values (col # rest) results =
     (case dict_append VAR_NAME col results of
        Inl e \<Rightarrow> Inl e
      | Inr r1 \<Rightarrow>
          (case get_numerical_column_stats E df col of
             Inl e \<Rightarrow> Inl e
           | Inr st \<Rightarrow>
               (case dict_append ALL_KEY (stats_str st) r1 of
                  Inl e \<Rightarrow> Inl e
                | Inr r2 \<Rightarrow>
                    (case (case (grp, group_values) of
                             (Some g, Some gvs) \<Rightarrow> numerical_group_loop E df g col gvs r2
                           | _ \<Rightarrow> Inr r2) of
                       Inl e \<Rightarrow> Inl e
                     | Inr r3 \<Rightarrow> numerical_col_loop E df grp group_values rest r3))))"

definition get_numerical_var_analysis ::
    "pyenv \<Rightarrow> dataframe \<Rightarrow> string option \<Rightarrow> exn + results" where
  "get_numerical_var_analysis E df grp =
     (case initialize_results_dict E df grp of
        Inl e \<Rightarrow> Inl e
      | Inr (results, group_values) \<Rightarrow>
          (case numerical_col_loop E df grp group_values (analysis_cols df grp) results of
             Inl e \<Rightarrow> Inl e
           | Inr r \<Rightarrow> DataFrame r))"

text \<open>
  An environment for the examples below, none of which prints a number with
  \<^verbatim>\<open>str()\<close> or reads a text as a float.
\<close>

definition example_env :: pyenv where
  "example_env = \<lparr>str_of_num = (\<lambda>q. []), float_of_str = (\<lambda>s. None)\<rparr>"

text \<open>
  The rows of a table taken in another order: row \<open>i\<close> of the result is row \<open>p ! i\<close>
  of \<open>df\<close>, for \<open>p\<close> a permutation of the row numbers.
\<close>

definition permute_rows :: "nat list \<Rightarrow> dataframe \<Rightarrow> dataframe" where
  "permute_rows p df = map (\<lambda>(c, s). (c, map (\<lambda>i. s ! i) p)) df"

section \<open>The store gateway\<close>

subsection \<open>Building the SQL text\<close>

text \<open>\<^verbatim>\<open>sep.join(parts)\<close>\<close>

fun join :: "string \<Rightarrow> string list \<Rightarrow> string" where
  "join sep [] = []"
| "join sep [x] = x"
| "join sep (x # y # rest) = x @ sep @ join sep (y # rest)"

text \<open>The double quote and the single quote.\<close>

definition dq :: string where
  "dq = [CHR 0x22]"

definition sq :: string where
  "sq = [CHR 0x27]"

text \<open>\<^verbatim>\<open>_reformat_columns\<close> (lines 233-246).\<close>

definition reformat_columns :: "string list \<Rightarrow> string" where
  "reformat_columns cols = join '','' (map (\<lambda>c. dq @ c @ dq) cols)"

text \<open>
  \<^verbatim>\<open>_reformat_columns_and_types\<close> (lines 248-262). The type map is a Python dict: its
  keys in insertion order, each looked up again with \<^verbatim>\<open>types[c]\<close> (a key of the
  dict, so the lookup finds it).
\<close>

type_synonym type_map = "(string \<times> string) list"

definition reformat_columns_and_types :: "type_map \<Rightarrow> string" where
  "reformat_columns_and_types types =
     (let cols = map fst types;
          query_parts =
            map (\<lambda>c. dq @ c @ dq @ '' '' @ (case map_of types c of None \<Rightarrow> [] | Some ty \<Rightarrow> ty)) cols
      in join '','' query_parts)"

text \<open>The statement built by \<^verbatim>\<open>_create_table\<close> (lines 62-72).\<close>

definition create_table_query ::
    "string \<Rightarrow> string \<Rightarrow> type_map \<Rightarrow> string list option \<Rightarrow> string" where
  "create_table_query schema table_name types primary_key =
     (let query = ''CREATE TABLE '' @ schema @ ''.'' @ dq @ table_name @ dq @ '' (''
                    @ reformat_columns_and_types types
      in case primary_key of
           Some pk \<Rightarrow> query @ '', PRIMARY KEY ('' @ reformat_columns pk @ '') );''
         | None \<Rightarrow> query @ '');'')"

text \<open>The statement built by \<^verbatim>\<open>get_table\<close> (lines 159-162).\<close>

definition get_table_query :: "string \<Rightarrow> string \<Rightarrow> string list option \<Rightarrow> string" where
  "get_table_query schema table_name cols =
     (let query = (case cols of
                     None \<Rightarrow> ''SELECT *''
                   | Some cs \<Rightarrow> ''SELECT '' @ reformat_columns cs @ '' '')
      in query @ '' FROM '' @ schema @ ''.'' @ dq @ table_name @ dq)"

text \<open>The statement built by \<^verbatim>\<open>get_column_names\<close> (lines 132-136).\<close>

definition get_column_names_query :: "string \<Rightarrow> string" where
  "get_column_names_query table_name =
     (let table_name' = concat (map (\<lambda>ch. if [ch] = sq then sq @ sq else [ch]) table_name)
      in ''SELECT COLUMN_NAME FROM INFORMATION_SCHEMA.COLUMNS WHERE TABLE_NAME= ''
           @ sq @ table_name' @ sq)"

subsection \<open>The backend and the operations\<close>

text \<open>
  What a call into psycopg2 does is not decided by the program: it returns, or it
  raises a \<^verbatim>\<open>psycopg2.Error\<close> whose \<^verbatim>\<open>pgerror\<close> attribute is a text or None, or it
  raises another exception, which no \<^verbatim>\<open>except psycopg2.Error\<close> clause catches. The
  outcome of each call is therefore an argument of the operation that makes it.
\<close>

datatype 'a pg = PgOk 'a | PgError "string option" | PgOther exn

text \<open>
  What the operations change: the statements sent with \<^verbatim>\<open>cursor.execute\<close>, the
  committed tables of the database, and the files of the working directory.
\<close>

record world =
  executed :: "string list"
  tables :: "string \<Rightarrow> dataframe option"
  files :: "string set"

definition TEMP :: string where
  "TEMP = ''temp''"

text \<open>\<^verbatim>\<open>_connect\<close> (lines 181-207).\<close>

definition connect :: "'c pg \<Rightarrow> exn + 'c" where
  "connect r =
     (case r of
        PgOk conn \<Rightarrow> Inr conn
      | PgError pgerror \<Rightarrow> Inl (Exception pgerror)
      | PgOther e \<Rightarrow> Inl e)"

text \<open>
  \<^verbatim>\<open>_create_table\<close> (lines 46-81): one statement is executed; when it succeeds the
  transaction is committed and the database has the new table, without rows.
\<close>

definition create_table ::
    "string \<Rightarrow> string \<Rightarrow> type_map \<Rightarrow> string list option \<Rightarrow> unit pg \<Rightarrow> world \<Rightarrow>
     (exn + unit) \<times> world" where
  "create_table schema table_name types primary_key r w =
     (let query = create_table_query schema table_name types primary_key;
          w1 = w\<lparr>executed := executed w @ [query]\<rparr>
      in case r of
           PgOk u \<Rightarrow>
             (Inr (), w1\<lparr>tables := (tables w1)(table_name \<mapsto> map (\<lambda>(c, ty). (c, [])) types)\<rparr>)
         | PgError pgerror \<Rightarrow> (Inl (Exception pgerror), w1)
         | PgOther e \<Rightarrow> (Inl e, w1))"

text \<open>\<^verbatim>\<open>df[types.keys()]\<close>: the columns named, in that order; KeyError on a missing one.\<close>

fun select_columns :: "dataframe \<Rightarrow> string list \<Rightarrow> exn + dataframe" where
  "select_columns df [] = Inr []"
| "select_columns df (c # cs) =
     (case getitem df c of
        Inl e \<Rightarrow> Inl e
      | Inr s \<Rightarrow> (case select_columns df cs of Inl e \<Rightarrow> Inl e | Inr d \<Rightarrow> Inr ((c, s) # d)))"

text \<open>
  \<^verbatim>\<open>create_and_fill_table\<close> (lines 83-121). \<open>r1\<close> is the outcome of the CREATE TABLE
  statement, \<open>r2\<close> the outcome of \<^verbatim>\<open>copy_from\<close>. The temporary file is written by
  \<^verbatim>\<open>to_csv\<close> and removed at the end of the \<^verbatim>\<open>try\<close> block and in its
  \<^verbatim>\<open>except psycopg2.Error\<close> clause; the copy is committed only when it succeeds.
\<close>

definition create_and_fill_table ::
    "string \<Rightarrow> dataframe \<Rightarrow> string \<Rightarrow> type_map \<Rightarrow> string list option \<Rightarrow> unit pg \<Rightarrow> unit pg \<Rightarrow>
     world \<Rightarrow> (exn + unit) \<times> world" where
  "create_and_fill_table schema df table_name types primary_key r1 r2 w =
     (case create_table schema table_name types primary_key r1 w of
        (Inl e, w1) \<Rightarrow> (Inl e, w1)
      | (Inr u, w1) \<Rightarrow>
          (case select_columns df (map fst types) of
             Inl e \<Rightarrow> (Inl e, w1)
           | Inr df' \<Rightarrow>
               (let w2 = w1\<lparr>files := insert TEMP (files w1)\<rparr>
                in case r2 of
                     PgOk u' \<Rightarrow>
                       (Inr (), w2\<lparr>tables := (tables w2)(table_name \<mapsto> df'),
                                   files := files w2 - {TEMP}\<rparr>)
                   | PgError pgerror \<Rightarrow>
                       (Inl (Exception pgerror), w2\<lparr>files := files w2 - {TEMP}\<rparr>)
                   | PgOther e \<Rightarrow> (Inl e, w2))))"

text \<open>\<^verbatim>\<open>get_column_names\<close> (lines 123-143); the backend answers with the names.\<close>

definition get_column_names ::
    "string \<Rightarrow> string list pg \<Rightarrow> world \<Rightarrow> (exn + string list) \<times> world" where
  "get_column_names table_name r w =
     (let w1 = w\<lparr>executed := executed w @ [get_column_names_query table_name]\<rparr>
      in case r of
           PgOk columns_names \<Rightarrow> (Inr columns_names, w1)
         | PgError pgerror \<Rightarrow> (Inl (Exception pgerror), w1)
         | PgOther e \<Rightarrow> (Inl e, w1))"

text \<open>
  \<^verbatim>\<open>DataFrame(data=data, columns=columns)\<close> from rows: ValueError unless every row has
  one cell per column.
\<close>

definition DataFrame_of_rows :: "cell list list \<Rightarrow> string list \<Rightarrow> exn + dataframe" where
  "DataFrame_of_rows data cols =
     (if list_all (\<lambda>row. length row = length cols) data
      then Inr (map (\<lambda>i. (cols ! i, map (\<lambda>row. row ! i) data)) [0..<length cols])
      else Inl ValueError)"

text \<open>
  \<^verbatim>\<open>get_table\<close> (lines 145-179); the backend answers with the column names of the
  result descriptor and the rows.
\<close>

definition get_table ::
    "string \<Rightarrow> string \<Rightarrow> string list option \<Rightarrow> (string list \<times> cell list list) pg \<Rightarrow> world \<Rightarrow>
     (exn + dataframe) \<times> world" where
  "get_table schema table_name cols r w =
     (let w1 = w\<lparr>executed := executed w @ [get_table_query schema table_name cols]\<rparr>
      in case r of
           PgOk (names, data) \<Rightarrow> (DataFrame_of_rows data names, w1)
         | PgError pgerror \<Rightarrow> (Inl (Exception pgerror), w1)
         | PgOther e \<Rightarrow> (Inl e, w1))"

section \<open>Definitions used in the statements and proofs\<close>

text \<open>
  The results dictionary as the loops keep it: the two fixed keys, then one key per
  group value, \<open>K\<close> giving the key of a group value and \<open>c\<close> its list.
\<close>

definition results_of ::
    "(cell \<Rightarrow> string) \<Rightarrow> string list \<Rightarrow> string list \<Rightarrow> (cell \<Rightarrow> string list) \<Rightarrow> cell list \<Rightarrow> results" where
  "results_of K a b c gvs = (VAR_NAME, a) # (ALL_KEY, b) # map (\<lambda>x. (K x, c x)) gvs"

text \<open>
  Both loops over the group values have one shape: compute an entry, which may
  raise, and append it under the key of the group value.
\<close>

fun append_loop ::
    "(cell \<Rightarrow> exn + string) \<Rightarrow> (cell \<Rightarrow> string) \<Rightarrow> cell list \<Rightarrow> results \<Rightarrow> exn + results" where
  "append_loop f K [] r = Inr r"
| "append_loop f K (x # xs) r =
     (case f x of
        Inl e \<Rightarrow> Inl e
      | Inr y \<Rightarrow> (case dict_append (K x) y r of Inl e \<Rightarrow> Inl e | Inr r' \<Rightarrow> append_loop f K xs r'))"

definition cat_entry :: "dataframe \<Rightarrow> series \<Rightarrow> series \<Rightarrow> cell \<Rightarrow> cell \<Rightarrow> exn + string" where
  "cat_entry df g s category group_val =
     (if group_total g group_val s = 0 then Inl ZeroDivisionError
      else Inr (count_percent (sub_category_total df g group_val s category)
                  (group_total g group_val s)))"

definition num_entry :: "pyenv \<Rightarrow> dataframe \<Rightarrow> series \<Rightarrow> string \<Rightarrow> cell \<Rightarrow> exn + string" where
  "num_entry E df g col group_val =
     (case get_numerical_column_stats E (df_select df (eq_mask g group_val)) col of
        Inl e \<Rightarrow> Inl e
      | Inr st \<Rightarrow> Inr (stats_str st))"

text \<open>All the lists of the dictionary have length \<open>n\<close>.\<close>

definition shaped :: "(cell \<Rightarrow> string) \<Rightarrow> cell list \<Rightarrow> nat \<Rightarrow> results \<Rightarrow> bool" where
  "shaped K gvs n r =
     (\<exists>a b c. r = results_of K a b c gvs \<and> length a = n \<and> length b = n
        \<and> (\<forall>x\<in>set gvs. length (c x) = n))"

text \<open>
  What \<^verbatim>\<open>_initialize_results_dict\<close> hands to the loops: no group and no group
  values, or a group column \<open>g\<close> with its values and their keys.
\<close>

definition loop_ctx ::
    "pyenv \<Rightarrow> dataframe \<Rightarrow> string option \<Rightarrow> cell list option \<Rightarrow> (cell \<Rightarrow> string) \<Rightarrow> series \<Rightarrow>
     cell list \<Rightarrow> bool" where
  "loop_ctx E df grp gvo K g gvs =
     (case (grp, gvo) of
        (Some gn, Some gvs') \<Rightarrow> gvs' = gvs \<and> getitem df gn = Inr g \<and> K = group_key E gn
      | _ \<Rightarrow> gvs = [])"

text \<open>
  The keys of the results dictionary are pairwise different: no two group values
  are printed alike, and no group key is \<^verbatim>\<open>"Variable Name"\<close> or \<^verbatim>\<open>"All"\<close>.
\<close>

definition labels_distinct :: "pyenv \<Rightarrow> dataframe \<Rightarrow> string option \<Rightarrow> bool" where
  "labels_distinct E df grp =
     (case grp of
        None \<Rightarrow> True
      | Some g \<Rightarrow>
          (case getitem df g of
             Inl e \<Rightarrow> True
           | Inr s \<Rightarrow> distinct (VAR_NAME # ALL_KEY # map (group_key E g) (unique s))))"

text \<open>
  The rows of the categorical summary as the specification lists them: for each
  column, in order, its distinct non-missing values in order of first appearance.
\<close>

definition category_rows :: "dataframe \<Rightarrow> (string \<times> series \<times> cell) list" where
  "category_rows df = concat (map (\<lambda>(col, s). map (\<lambda>v. (col, s, v)) (unique (dropna s))) df)"

text \<open>The tables of the examples.\<close>

definition sex_table :: dataframe where
  "sex_table = [(''Sex'', [Str ''M'', Str ''F'', Str ''F'', Str ''M'', Str ''M''])]"

definition sex_x_table :: dataframe where
  "sex_x_table =
     [(''Sex'', [Str ''M'', Str ''F'', Str ''M'']), (''X'', [Str ''a'', Str ''b'', Str ''b''])]"

definition age_sex_table :: dataframe where
  "age_sex_table =
     [(''Age'', [Num 10, Num 20, Num 30]), (''Sex'', [Str ''M'', Str ''F'', Str ''M''])]"

definition clash_table :: dataframe where
  "clash_table = [(''Variable'', [Str ''Name'']), (''X'', [Str ''a''])]"

text \<open>
  The statistics of one series: what \<^verbatim>\<open>get_numerical_column_stats\<close> computes once the
  column is found.
\<close>

definition series_stats :: "pyenv \<Rightarrow> series \<Rightarrow> exn + (pyfloat \<times> pyfloat \<times> pyfloat \<times> pyfloat)" where
  "series_stats E s =
     (case astype_float E s of
        Inl e \<Rightarrow> Inl e
      | Inr numerical_data \<Rightarrow>
          (let v = skipna numerical_data in Inr (mean v, std v, min_of v, max_of v)))"

text \<open>
  Two summary tables with the same two leading columns and the same group columns,
  the group columns possibly in another order.
\<close>

definition same_up_to_group_order :: "results \<Rightarrow> results \<Rightarrow> bool" where
  "same_up_to_group_order r r' = (take 2 r' = take 2 r \<and> mset (drop 2 r') = mset (drop 2 r))"

text \<open>
  The CREATE TABLE statement in the words of the specification: the columns in the
  order of the type map, each as \<^verbatim>\<open>"name" type\<close>, then the optional PRIMARY KEY
  clause over the quoted key columns.
\<close>

definition spec_create_table_statement ::
    "string \<Rightarrow> string \<Rightarrow> type_map \<Rightarrow> string list option \<Rightarrow> string" where
  "spec_create_table_statement schema table_name types primary_key =
     ''CREATE TABLE '' @ schema @ ''.'' @ dq @ table_name @ dq @ '' (''
       @ join '','' (map (\<lambda>(c, ty). dq @ c @ dq @ '' '' @ ty) types)
       @ (case primary_key of
            None \<Rightarrow> '');''
          | Some pk \<Rightarrow> '', PRIMARY KEY ('' @ join '','' (map (\<lambda>c. dq @ c @ dq) pk) @ '') );'')"

text \<open>More tables and values for the examples.\<close>

definition age_table :: dataframe where
  "age_table = [(''Age'', [Num 10, Num 20, Num 30])]"

definition nan_group_table :: dataframe where
  "nan_group_table = [(''Sex'', [Str ''M'', NaN]), (''X'', [Str ''a'', Str ''b''])]"

definition nan_group_num_table :: dataframe where
  "nan_group_num_table = [(''Sex'', [Str ''M'', NaN]), (''X'', [Num 1, Num 2])]"

definition empty_world :: world where
  "empty_world = \<lparr>executed = [], tables = (\<lambda>t. None), files = {}\<rparr>"

text \<open>A column name with a double quote inside.\<close>

definition quoted_name :: string where
  "quoted_name = ''a'' @ dq @ ''b''"

text \<open>
  The length of the list under a key of the results dictionary, 0 for a key that
  is not there.
\<close>

definition entry_len :: "results \<Rightarrow> string \<Rightarrow> nat" where
  "entry_len r k = (case map_of r k of None \<Rightarrow> 0 | Some l \<Rightarrow> length l)"

text \<open>
  The dictionary that \<^verbatim>\<open>_initialize_results_dict\<close> builds from the keys of the group
  values, whether or not two of the keys are equal: an assignment to a key that is
  already there leaves the dictionary as it is.
\<close>

definition init_dict :: "(cell \<Rightarrow> string) \<Rightarrow> cell list \<Rightarrow> results" where
  "init_dict K gvs =
     [(VAR_NAME, []), (ALL_KEY, [])]
     @ map (\<lambda>k. (k, [])) (unique (filter (\<lambda>k. k \<noteq> VAR_NAME \<and> k \<noteq> ALL_KEY) (map K gvs)))"

section \<open>Lemmas\<close>

lemma set_unique [simp]: "set (unique xs) = set xs"
  by (induction xs rule: unique.induct) auto

lemma distinct_unique [simp]: "distinct (unique xs)"
  by (induction xs rule: unique.induct) auto

lemma unique_snoc:
  "unique (xs @ [x]) = (if x \<in> set xs then unique xs else unique xs @ [x])"
  by (induction xs rule: unique.induct) auto

lemma unique_mset_cong:
  assumes "mset xs = mset ys"
  shows "mset (unique xs) = mset (unique ys)"
proof -
  have "set xs = set ys" using assms by (rule mset_eq_setD)
  then have "set (unique xs) = set (unique ys)" by simp
  then show ?thesis by (simp add: set_eq_iff_mset_eq_distinct [symmetric])
qed

lemma set_dropna [simp]: "set (dropna s) = set s - {NaN}"
  by (auto simp: dropna_def)

lemma getitem_member:
  assumes "distinct (columns df)" and "(c, s) \<in> set df"
  shows "getitem df c = Inr s"
  using assms by (simp add: getitem_def columns_def)

lemma getitem_Inr_member: "getitem df c = Inr s \<Longrightarrow> (c, s) \<in> set df"
  by (auto simp: getitem_def split: option.splits dest: map_of_SomeD)

lemma length_eq_mask [simp]: "length (eq_mask s v) = length s"
  by (simp add: eq_mask_def)

lemma length_select:
  assumes "length m = length s"
  shows "length (select m s) = length (filter id m)"
  using assms unfolding select_def
  by (induction m s rule: list_induct2) auto

lemma shape0_member:
  assumes "wf_df df" and "(c, s) \<in> set df"
  shows "length s = shape0 df"
  using assms by (auto simp: wf_df_def list_all_iff)

lemma shape0_df_select:
  assumes "wf_df df" and "df \<noteq> []" and "length m = shape0 df"
  shows "shape0 (df_select df m) = length (filter id m)"
proof (cases df)
  case Nil
  with assms(2) show ?thesis by simp
next
  case (Cons cs rest)
  obtain c s where cs: "cs = (c, s)" by (cases cs)
  from assms(3) have "length m = length s"
    unfolding Cons cs shape0_def by simp
  then show ?thesis
    unfolding Cons cs shape0_def df_select_def by (simp add: length_select)
qed

lemma category_total_count:
  assumes "wf_df df" and "(c, s) \<in> set df" and "v \<noteq> NaN"
  shows "category_total df s v = count_list s v"
proof -
  from assms(2) have ne: "df \<noteq> []" by auto
  have "length (eq_mask s v) = shape0 df"
    using shape0_member [OF assms(1,2)] by simp
  from shape0_df_select [OF assms(1) ne this]
  have "category_total df s v = length (filter id (eq_mask s v))"
    by (simp add: category_total_def)
  also have "\<dots> = length (filter (\<lambda>c. c = v) s)"
    using assms(3) unfolding eq_mask_def by (induction s) auto
  also have "\<dots> = count_list s v"
    by (induction s) auto
  finally show ?thesis .
qed

lemma isna_sum_count: "isna_sum s = count_list s NaN"
  unfolding isna_sum_def by (induction s) auto

lemma VAR_NAME_neq_ALL_KEY [simp]: "VAR_NAME \<noteq> ALL_KEY" "ALL_KEY \<noteq> VAR_NAME"
  by (simp_all add: VAR_NAME_def ALL_KEY_def)

lemma update_keyed:
  assumes "distinct (map K gvs)" and "gv \<in> set gvs"
  shows "AList.update (K gv) v (map (\<lambda>x. (K x, c x)) gvs) = map (\<lambda>x. (K x, (c(gv := v)) x)) gvs"
  using assms
proof (induction gvs)
  case Nil
  then show ?case by simp
next
  case (Cons a gvs)
  show ?case
  proof (cases "a = gv")
    case True
    with Cons.prems have "gv \<notin> set gvs" by auto
    then have "map (\<lambda>x. (K x, c x)) gvs = map (\<lambda>x. (K x, (c(gv := v)) x)) gvs" by auto
    with True show ?thesis by simp
  next
    case False
    with Cons.prems have "gv \<in> set gvs" and "K a \<noteq> K gv" by auto
    with Cons False show ?thesis by simp
  qed
qed

lemma map_of_keyed:
  assumes "distinct (map K gvs)" and "gv \<in> set gvs"
  shows "map_of (map (\<lambda>x. (K x, c x)) gvs) (K gv) = Some (c gv)"
  using assms by (induction gvs) (auto simp: image_iff)

lemma dict_append_group:
  assumes "distinct (VAR_NAME # ALL_KEY # map K gvs)" and "gv \<in> set gvs"
  shows "dict_append (K gv) y (results_of K a b c gvs) =
           Inr (results_of K a b (c(gv := c gv @ [y])) gvs)"
proof -
  from assms have 1: "K gv \<noteq> VAR_NAME" "K gv \<noteq> ALL_KEY" "distinct (map K gvs)" by force+
  show ?thesis
    using 1 assms(2)
    by (simp add: dict_append_def results_of_def map_of_keyed update_keyed)
qed

lemma dict_append_VAR:
  "dict_append VAR_NAME y (results_of K a b c gvs) = Inr (results_of K (a @ [y]) b c gvs)"
  by (simp add: dict_append_def results_of_def)

lemma dict_append_ALL:
  "dict_append ALL_KEY y (results_of K a b c gvs) = Inr (results_of K a (b @ [y]) c gvs)"
  by (simp add: dict_append_def results_of_def)

lemma append_loop_closed:
  assumes "distinct (VAR_NAME # ALL_KEY # map K gvs)"
      and "set rest \<subseteq> set gvs" and "distinct rest"
      and "\<forall>x\<in>set rest. f x = Inr (h x)"
  shows "append_loop f K rest (results_of K a b c gvs) =
           Inr (results_of K a b (\<lambda>x. if x \<in> set rest then c x @ [h x] else c x) gvs)"
  using assms(2-)
proof (induction rest arbitrary: c)
  case Nil
  then show ?case by simp
next
  case (Cons x rest)
  have "(\<lambda>y. if y \<in> set rest then (c(x := c x @ [h x])) y @ [h y] else (c(x := c x @ [h x])) y)
      = (\<lambda>y. if y \<in> set (x # rest) then c y @ [h y] else c y)"
    using Cons.prems by auto
  with Cons show ?case
    by (simp add: dict_append_group [OF assms(1)])
qed

lemma append_loop_Inr:
  assumes "append_loop f K rest r = Inr r'"
  shows "\<forall>x\<in>set rest. \<exists>y. f x = Inr y"
  using assms
  by (induction rest arbitrary: r) (auto split: sum.splits)

lemma fold_update_fresh:
  assumes "distinct (map fst acc @ map K gvs)"
  shows "fold (\<lambda>gv r. AList.update (K gv) ([]::string list) r) gvs acc = acc @ map (\<lambda>x. (K x, [])) gvs"
  using assms
proof (induction gvs arbitrary: acc)
  case Nil
  then show ?case by simp
next
  case (Cons x gvs)
  from Cons.prems have "K x \<notin> fst ` set acc" by auto
  then have u: "AList.update (K x) [] acc = acc @ [(K x, [])]"
    by (induction acc) auto
  from Cons.prems have "distinct (map fst (acc @ [(K x, [])]) @ map K gvs)" by auto
  from Cons.IH [OF this] u show ?case by simp
qed

lemma initialize_results_dict_Some:
  assumes "getitem df g = Inr s"
      and "distinct (VAR_NAME # ALL_KEY # map (group_key E g) (unique s))"
  shows "initialize_results_dict E df (Some g) =
           Inr (results_of (group_key E g) [] [] (\<lambda>x. []) (unique s), Some (unique s))"
  using assms fold_update_fresh [of "[(VAR_NAME, []), (ALL_KEY, [])]" "group_key E g" "unique s"]
  by (simp add: initialize_results_dict_def results_of_def Let_def)

lemma categorical_group_loop_append:
  assumes "getitem df gn = Inr g"
  shows "categorical_group_loop E df gn s category rest r =
           append_loop (cat_entry df g s category) (group_key E gn) rest r"
  using assms
  by (induction rest arbitrary: r) (auto simp: cat_entry_def Let_def split: sum.splits)

lemma numerical_group_loop_append:
  assumes "getitem df gn = Inr g"
  shows "numerical_group_loop E df gn col rest r =
           append_loop (num_entry E df g col) (group_key E gn) rest r"
  using assms
  by (induction rest arbitrary: r) (auto simp: num_entry_def Let_def split: sum.splits)

lemma categorical_group_part:
  assumes "loop_ctx E df grp gvo K g gvs"
  shows "(case grp of
            None \<Rightarrow> Inr r
          | Some gn \<Rightarrow>
              (case gvo of
                 None \<Rightarrow> Inr r
               | Some gvs' \<Rightarrow> categorical_group_loop E df gn s category gvs' r))
         = append_loop (cat_entry df g s category) K gvs r"
  using assms
  by (auto simp: loop_ctx_def categorical_group_loop_append split: option.splits)

lemma numerical_group_part:
  assumes "loop_ctx E df grp gvo K g gvs"
  shows "(case grp of
            None \<Rightarrow> Inr r
          | Some gn \<Rightarrow>
              (case gvo of
                 None \<Rightarrow> Inr r
               | Some gvs' \<Rightarrow> numerical_group_loop E df gn col gvs' r))
         = append_loop (num_entry E df g col) K gvs r"
  using assms
  by (auto simp: loop_ctx_def numerical_group_loop_append split: option.splits)

lemma shaped_aligned:
  assumes "shaped K gvs n r"
  shows "aligned r"
  using assms
  by (auto simp: shaped_def aligned_def results_of_def list_all_iff)

lemma row_step:
  assumes dist: "distinct (VAR_NAME # ALL_KEY # map K gvs)" and dg: "distinct gvs"
      and sh: "shaped K gvs n r"
      and 1: "dict_append VAR_NAME y r = Inr r1"
      and 2: "dict_append ALL_KEY z r1 = Inr r2"
      and 3: "append_loop f K gvs r2 = Inr r3"
  shows "shaped K gvs (Suc n) r3"
proof -
  from sh obtain a b c where r: "r = results_of K a b c gvs"
    and len: "length a = n" "length b = n" "\<forall>x\<in>set gvs. length (c x) = n"
    by (auto simp: shaped_def)
  from 1 r have r1: "r1 = results_of K (a @ [y]) b c gvs" by (simp add: dict_append_VAR)
  from 2 r1 have r2: "r2 = results_of K (a @ [y]) (b @ [z]) c gvs" by (simp add: dict_append_ALL)
  define h where "h x = (case f x of Inr v \<Rightarrow> v | Inl e \<Rightarrow> [])" for x
  from append_loop_Inr [OF 3] have "\<forall>x\<in>set gvs. f x = Inr (h x)"
    by (auto simp: h_def)
  from append_loop_closed [OF dist subset_refl dg this, of "a @ [y]" "b @ [z]" c] 3 r2
  have "r3 = results_of K (a @ [y]) (b @ [z]) (\<lambda>x. if x \<in> set gvs then c x @ [h x] else c x) gvs"
    by simp
  with len show ?thesis unfolding shaped_def by (intro exI conjI) (assumption | simp)+
qed

lemma category_loop_shaped:
  assumes dist: "distinct (VAR_NAME # ALL_KEY # map K gvs)" and dg: "distinct gvs"
      and ctx: "loop_ctx E df grp gvo K g gvs"
      and "shaped K gvs n r"
      and "category_loop E df grp gvo col s tot cats r = Inr r'"
  shows "shaped K gvs (n + length cats) r'"
  using assms(4,5)
proof (induction cats arbitrary: r n)
  case Nil
  then show ?case by simp
next
  case (Cons category cats)
  from Cons.prems(2) obtain r1 r2 r3 where
    1: "dict_append VAR_NAME (col @ '' : '' @ py_str E category) r = Inr r1" and
    2: "dict_append ALL_KEY (count_percent (category_total df s category) tot) r1 = Inr r2" and
    3: "append_loop (cat_entry df g s category) K gvs r2 = Inr r3" and
    4: "category_loop E df grp gvo col s tot cats r3 = Inr r'"
    by (auto simp: categorical_group_part [OF ctx] split: sum.splits)
  from row_step [OF dist dg Cons.prems(1) 1 2 3] have "shaped K gvs (Suc n) r3" .
  from Cons.IH [OF this 4] show ?case by simp
qed

lemma categorical_col_loop_shaped:
  assumes dist: "distinct (VAR_NAME # ALL_KEY # map K gvs)" and dg: "distinct gvs"
      and ctx: "loop_ctx E df grp gvo K g gvs"
      and "shaped K gvs n r"
      and "categorical_col_loop E df grp gvo cols r = Inr r'"
  shows "\<exists>m. shaped K gvs m r'"
  using assms(4,5)
proof (induction cols arbitrary: r n)
  case Nil
  then show ?case by auto
next
  case (Cons col cols)
  from Cons.prems(2) obtain s r1 where
    1: "category_loop E df grp gvo col s (shape0 df - isna_sum s) (unique (dropna s)) r = Inr r1" and
    2: "categorical_col_loop E df grp gvo cols r1 = Inr r'"
    by (auto simp: Let_def split: sum.splits)
  from category_loop_shaped [OF dist dg ctx Cons.prems(1) 1] Cons.IH [OF _ 2]
  show ?case by blast
qed

lemma numerical_col_loop_shaped:
  assumes dist: "distinct (VAR_NAME # ALL_KEY # map K gvs)" and dg: "distinct gvs"
      and ctx: "loop_ctx E df grp gvo K g gvs"
      and "shaped K gvs n r"
      and "numerical_col_loop E df grp gvo cols r = Inr r'"
  shows "shaped K gvs (n + length cols) r'"
  using assms(4,5)
proof (induction cols arbitrary: r n)
  case Nil
  then show ?case by simp
next
  case (Cons col cols)
  from Cons.prems(2) obtain r1 st r2 r3 where
    1: "dict_append VAR_NAME col r = Inr r1" and
    2: "dict_append ALL_KEY (stats_str st) r1 = Inr r2" and
    3: "append_loop (num_entry E df g col) K gvs r2 = Inr r3" and
    4: "numerical_col_loop E df grp gvo cols r3 = Inr r'"
    by (auto simp: numerical_group_part [OF ctx] simp del: stats_str.simps split: sum.splits)
  from row_step [OF dist dg Cons.prems(1) 1 2 3] have "shaped K gvs (Suc n) r3" .
  from Cons.IH [OF this 4] show ?case by simp
qed

lemma init_shaped:
  assumes ld: "labels_distinct E df grp"
      and init: "initialize_results_dict E df grp = Inr (r0, gvo)"
  shows "\<exists>K g gvs. distinct (VAR_NAME # ALL_KEY # map K gvs) \<and> distinct gvs
           \<and> loop_ctx E df grp gvo K g gvs \<and> shaped K gvs 0 r0"
proof (cases grp)
  case None
  with init have "r0 = results_of (\<lambda>x. []) [] [] (\<lambda>x. []) []" "gvo = None"
    by (auto simp: initialize_results_dict_def results_of_def)
  with None show ?thesis
    by (intro exI [of _ "\<lambda>x. []"] exI [of _ "[]"]) (auto simp: loop_ctx_def shaped_def)
next
  case (Some gn)
  with init obtain s where s: "getitem df gn = Inr s"
    by (auto simp: initialize_results_dict_def split: sum.splits)
  with ld Some have d: "distinct (VAR_NAME # ALL_KEY # map (group_key E gn) (unique s))"
    by (simp add: labels_distinct_def)
  from initialize_results_dict_Some [OF s d] init Some
  have "r0 = results_of (group_key E gn) [] [] (\<lambda>x. []) (unique s)" "gvo = Some (unique s)"
    by auto
  with Some s d show ?thesis
    by (intro exI [of _ "group_key E gn"] exI [of _ s] exI [of _ "unique s"])
       (auto simp: loop_ctx_def shaped_def)
qed

lemma category_loop_None:
  "category_loop E df None gvo col s tot cats [(VAR_NAME, a), (ALL_KEY, b)] =
     Inr [(VAR_NAME, a @ map (\<lambda>v. col @ '' : '' @ py_str E v) cats),
          (ALL_KEY, b @ map (\<lambda>v. count_percent (category_total df s v) tot) cats)]"
  by (induction cats arbitrary: a b) (simp_all add: dict_append_def)

lemma categorical_col_loop_None:
  assumes "distinct (columns df)" and "set dfs \<subseteq> set df"
  shows "categorical_col_loop E df None gvo (map fst dfs) [(VAR_NAME, a), (ALL_KEY, b)] =
     Inr [(VAR_NAME, a @ concat (map (\<lambda>(col, s). map (\<lambda>v. col @ '' : '' @ py_str E v)
                                     (unique (dropna s))) dfs)),
          (ALL_KEY, b @ concat (map (\<lambda>(col, s). map (\<lambda>v. count_percent (category_total df s v)
                                     (shape0 df - isna_sum s)) (unique (dropna s))) dfs))]"
  using assms(2)
proof (induction dfs arbitrary: a b)
  case Nil
  then show ?case by simp
next
  case (Cons cs dfs)
  obtain col s where cs: "cs = (col, s)" by (cases cs)
  with Cons.prems have "getitem df col = Inr s"
    by (auto intro: getitem_member [OF assms(1)])
  with Cons cs show ?case
    by (simp add: category_loop_None Let_def)
qed

lemma distinct_category_rows:
  assumes "distinct (columns df)"
  shows "distinct (map (\<lambda>(col, s, v). (col, v)) (category_rows df))"
  using assms unfolding category_rows_def columns_def
proof (induction df)
  case Nil
  then show ?case by simp
next
  case (Cons cs df)
  obtain col s where cs: "cs = (col, s)" by (cases cs)
  have "distinct (map (\<lambda>(col, s, v). (col, v)) (map (\<lambda>v. (col, s, v)) (unique (dropna s))))"
    by (simp add: distinct_map comp_def inj_on_def)
  moreover have "fst ` set (map (\<lambda>(col, s, v). (col, v))
      (concat (map (\<lambda>(col, s). map (\<lambda>v. (col, s, v)) (unique (dropna s))) df))) \<subseteq> fst ` set df"
    by force
  ultimately show ?case using Cons cs by (auto simp: image_iff)
qed

lemma set_category_rows:
  "set (category_rows df) = {(col, s, v). (col, s) \<in> set df \<and> v \<in> set s \<and> v \<noteq> NaN}"
  unfolding category_rows_def by auto

lemma sum_list_indicator:
  assumes "distinct vs" and "a \<in> set vs"
  shows "(\<Sum>v\<leftarrow>vs. if a = v \<and> P then 1 else 0) = (if P then 1 else (0::nat))"
  using assms by (induction vs) auto

lemma length_and_mask [simp]: "length (and_mask m1 m2) = min (length m1) (length m2)"
  by (simp add: and_mask_def)

lemma group_counts_core:
  assumes "length g = length s" and "NaN \<notin> set g" and "distinct vs" and "set g \<subseteq> set vs"
  shows "(\<Sum>v\<leftarrow>vs. length (filter id (and_mask (eq_mask g v) (eq_mask s category))))
           = length (filter id (eq_mask s category))"
  using assms(1,2,4)
proof (induction g s rule: list_induct2)
  case Nil
  then show ?case by (simp add: and_mask_def eq_mask_def)
next
  case (Cons a g b s)
  have "(\<Sum>v\<leftarrow>vs. length (filter id (and_mask (eq_mask (a # g) v) (eq_mask (b # s) category))))
      = (\<Sum>v\<leftarrow>vs. (if a = v \<and> (b \<noteq> NaN \<and> b = category) then 1 else 0)
                  + length (filter id (and_mask (eq_mask g v) (eq_mask s category))))"
    using Cons.prems by (intro arg_cong [where f = sum_list] map_cong) (auto simp: and_mask_def eq_mask_def)
  also have "\<dots> = (if b \<noteq> NaN \<and> b = category then 1 else 0)
                  + length (filter id (eq_mask s category))"
  proof -
    from Cons.prems have "NaN \<notin> set g" and "set g \<subseteq> set vs" and "a \<in> set vs"
      by auto
    from Cons.IH [OF this(1,2)] sum_list_indicator [OF assms(3) this(3), of "b \<noteq> NaN \<and> b = category"]
    show ?thesis
      by (simp only: sum_list_addf)
  qed
  also have "\<dots> = length (filter id (eq_mask (b # s) category))"
    by (simp add: eq_mask_def)
  finally show ?case .
qed

lemma reformat_columns_and_types_pairs:
  assumes "distinct (map fst types)"
  shows "reformat_columns_and_types types
           = join '','' (map (\<lambda>(c, ty). dq @ c @ dq @ '' '' @ ty) types)"
proof -
  have "map (\<lambda>c. dq @ c @ dq @ '' '' @ (case map_of types c of None \<Rightarrow> [] | Some ty \<Rightarrow> ty))
          (map fst types)
      = map (\<lambda>(c, ty). dq @ c @ dq @ '' '' @ ty) types"
    using assms by (auto simp: map_of_eq_Some_iff [OF assms])
  then show ?thesis unfolding reformat_columns_and_types_def Let_def by (rule arg_cong)
qed

lemma sublist_join:
  assumes "x \<in> set xs"
  shows "sublist x (join sep xs)"
  using assms
proof (induction sep xs rule: join.induct)
  case (1 sep)
  then show ?case by simp
next
  case (2 sep y)
  then show ?case by simp
next
  case (3 sep y z rest)
  show ?case
  proof (cases "x = y")
    case True
    then show ?thesis by simp
  next
    case False
    with 3 have "sublist x (join sep (z # rest))" by simp
    then obtain ps ss where "join sep (z # rest) = ps @ x @ ss"
      by (auto simp: sublist_def)
    then have "join sep (y # z # rest) = (y @ sep @ ps) @ x @ ss" by simp
    then show ?thesis unfolding sublist_def by blast
  qed
qed

lemma sublist_trans_app:
  assumes "sublist x y"
  shows "sublist x (a @ y @ b)"
proof -
  from assms obtain ps ss where "y = ps @ x @ ss" by (auto simp: sublist_def)
  then have "a @ y @ b = (a @ ps) @ x @ (ss @ b)" by simp
  then show ?thesis unfolding sublist_def by blast
qed

lemma join_Cons:
  "join sep (x # xs) = x @ concat (map (\<lambda>y. sep @ y) xs)"
  by (induction sep xs arbitrary: x rule: join.induct) simp_all

lemma length_join:
  "length (join sep xs) = sum_list (map length xs) + length sep * (length xs - 1)"
  by (induction sep xs rule: join.induct) simp_all

lemma sublist_reformat_columns:
  assumes "c \<in> set cols"
  shows "sublist (dq @ c @ dq) (reformat_columns cols)"
  unfolding reformat_columns_def using assms by (intro sublist_join) auto

lemma sublist_reformat_columns_and_types:
  assumes "(c, ty) \<in> set types"
  shows "sublist (dq @ c @ dq) (reformat_columns_and_types types)"
proof -
  let ?part = "\<lambda>c. dq @ c @ dq @ '' '' @ (case map_of types c of None \<Rightarrow> [] | Some ty \<Rightarrow> ty)"
  from assms have "?part c \<in> set (map ?part (map fst types))" by force
  then have "sublist (?part c) (reformat_columns_and_types types)"
    unfolding reformat_columns_and_types_def Let_def by (rule sublist_join)
  moreover have "sublist (dq @ c @ dq) (?part c)"
    using sublist_trans_app [of "dq @ c @ dq" "dq @ c @ dq" "[]"
            "'' '' @ (case map_of types c of None \<Rightarrow> [] | Some ty \<Rightarrow> ty)"]
    by simp
  ultimately show ?thesis
    using sublist_order.order_trans by blast
qed

lemma columns_permute_rows [simp]: "columns (permute_rows p df) = columns df"
  by (simp add: columns_def permute_rows_def comp_def case_prod_unfold)

lemma analysis_cols_permute_rows [simp]:
  "analysis_cols (permute_rows p df) grp = analysis_cols df grp"
  by (simp add: analysis_cols_def split: option.splits)

lemma getitem_permute_rows:
  "getitem (permute_rows p df) c =
     (case getitem df c of Inl e \<Rightarrow> Inl e | Inr s \<Rightarrow> Inr (map (\<lambda>i. s ! i) p))"
proof -
  have "map_of (permute_rows p df) c = map_option (\<lambda>s. map (\<lambda>i. s ! i) p) (map_of df c)"
    unfolding permute_rows_def by (induction df) auto
  then show ?thesis by (simp add: getitem_def split: option.splits)
qed

lemma getitem_df_select:
  "getitem (df_select df m) c =
     (case getitem df c of Inl e \<Rightarrow> Inl e | Inr s \<Rightarrow> Inr (select m s))"
proof -
  have "map_of (df_select df m) c = map_option (select m) (map_of df c)"
    unfolding df_select_def by (induction df) auto
  then show ?thesis by (simp add: getitem_def split: option.splits)
qed

lemma mset_permuted_series:
  assumes "mset p = mset [0..<length s]"
  shows "mset (map (\<lambda>i. s ! i) p) = mset s"
proof -
  have "mset (map (\<lambda>i. s ! i) p) = image_mset (\<lambda>i. s ! i) (mset p)" by simp
  also have "\<dots> = mset (map (\<lambda>i. s ! i) [0..<length s])" using assms by simp
  also have "\<dots> = mset s" by (simp add: map_nth)
  finally show ?thesis .
qed

lemma select_indices:
  "select (eq_mask (map (\<lambda>i. g ! i) p) v) (map (\<lambda>i. s ! i) p)
     = map (\<lambda>i. s ! i) (filter (\<lambda>i. g ! i \<noteq> NaN \<and> g ! i = v) p)"
  unfolding select_def eq_mask_def by (induction p) auto

lemma mset_select_permuted:
  assumes "length g = length s" and "mset p = mset [0..<length s]"
  shows "mset (select (eq_mask (map (\<lambda>i. g ! i) p) v) (map (\<lambda>i. s ! i) p))
           = mset (select (eq_mask g v) s)"
proof -
  have "mset (select (eq_mask (map (\<lambda>i. g ! i) p) v) (map (\<lambda>i. s ! i) p))
      = image_mset (\<lambda>i. s ! i) (filter_mset (\<lambda>i. g ! i \<noteq> NaN \<and> g ! i = v) (mset p))"
    by (simp add: select_indices)
  also have "\<dots> = mset (select (eq_mask (map (\<lambda>i. g ! i) [0..<length s]) v)
                          (map (\<lambda>i. s ! i) [0..<length s]))"
    unfolding select_indices assms(2) by simp
  also have "\<dots> = mset (select (eq_mask g v) s)"
    using map_nth [of g] map_nth [of s] assms(1) by simp
  finally show ?thesis .
qed

lemma to_float_error: "to_float E c = Inl e \<Longrightarrow> e = ValueError"
  by (cases c) (auto split: option.splits)

lemma astype_float_cases:
  "astype_float E s =
     (if \<forall>c\<in>set s. to_float E c \<noteq> Inl ValueError
      then Inr (map (\<lambda>c. case to_float E c of Inr x \<Rightarrow> x | Inl e \<Rightarrow> None) s)
      else Inl ValueError)"
proof (induction s)
  case Nil
  then show ?case by simp
next
  case (Cons c s)
  show ?case
  proof (cases "to_float E c")
    case (Inl e)
    with to_float_error [OF Inl] show ?thesis by simp
  next
    case (Inr x)
    with Cons show ?thesis by simp
  qed
qed

lemma mset_skipna:
  "mset (skipna xs) = image_mset the (filter_mset (\<lambda>x. x \<noteq> None) (mset xs))"
  by (induction xs rule: skipna.induct) auto

lemma min_of_set: "min_of xs = (if xs = [] then Nan else Fin (Min (set xs)))"
  by (cases xs) (simp_all add: min_of_def flip: Min.set_eq_fold)

lemma max_of_set: "max_of xs = (if xs = [] then Nan else Fin (Max (set xs)))"
  by (cases xs) (simp_all add: max_of_def flip: Max.set_eq_fold)

lemma stats_mset_cong:
  assumes "mset xs = mset ys"
  shows "mean xs = mean ys" and "std xs = std ys" and "min_of xs = min_of ys"
    and "max_of xs = max_of ys"
proof -
  from assms have len: "length xs = length ys" by (rule mset_eq_length)
  then have emp: "xs = [] \<longleftrightarrow> ys = []" by auto
  have sum: "sum_list (map f xs) = sum_list (map f ys)" for f :: "rat \<Rightarrow> rat"
  proof -
    have "sum_list (map f xs) = sum_mset (image_mset f (mset xs))"
      by (simp add: sum_mset_sum_list [symmetric])
    also have "\<dots> = sum_list (map f ys)"
      unfolding assms by (simp add: sum_mset_sum_list [symmetric])
    finally show ?thesis .
  qed
  from sum [of "\<lambda>x. x"] have sum1: "sum_list xs = sum_list ys" by simp
  from assms have set: "set xs = set ys" by (rule mset_eq_setD)
  show "mean xs = mean ys" by (simp add: mean_def emp sum1 len)
  show "std xs = std ys" by (simp add: std_def Let_def sum sum1 len)
  show "min_of xs = min_of ys" by (simp add: min_of_set emp set)
  show "max_of xs = max_of ys" by (simp add: max_of_set emp set)
qed

lemma get_numerical_column_stats_series:
  "get_numerical_column_stats E df col =
     (case getitem df col of Inl e \<Rightarrow> Inl e | Inr s \<Rightarrow> series_stats E s)"
  by (simp add: get_numerical_column_stats_def series_stats_def split: sum.splits)

lemma series_stats_mset_cong:
  assumes "mset s' = mset s"
  shows "series_stats E s' = series_stats E s"
proof -
  from assms have set: "set s' = set s" by (rule mset_eq_setD)
  let ?f = "\<lambda>c. case to_float E c of Inr x \<Rightarrow> x | Inl e \<Rightarrow> None"
  have "mset (map ?f s') = mset (map ?f s)" using assms by simp
  then have "mset (skipna (map ?f s')) = mset (skipna (map ?f s))"
    by (simp only: mset_skipna)
  from stats_mset_cong [OF this] show ?thesis
    by (simp add: series_stats_def astype_float_cases set Let_def)
qed

lemma series_stats_subset:
  assumes "series_stats E s = Inr st" and "set s' \<subseteq> set s"
  shows "\<exists>st'. series_stats E s' = Inr st'"
  using assms
  by (auto simp: series_stats_def astype_float_cases Let_def split: if_splits)

lemma set_select: "set (select m s) \<subseteq> set s"
  unfolding select_def by (auto dest: set_zip_rightD)

lemma column_stats_permuted:
  assumes "wf_df df" and "mset p = mset [0..<shape0 df]"
  shows "get_numerical_column_stats E (permute_rows p df) col = get_numerical_column_stats E df col"
proof (cases "getitem df col")
  case (Inl e)
  then show ?thesis
    by (simp add: get_numerical_column_stats_series getitem_permute_rows)
next
  case (Inr s)
  then have "length s = shape0 df"
    using shape0_member [OF assms(1) getitem_Inr_member] by blast
  with assms(2) have "mset (map (\<lambda>i. s ! i) p) = mset s"
    by (intro mset_permuted_series) simp
  from series_stats_mset_cong [OF this] Inr show ?thesis
    by (simp add: get_numerical_column_stats_series getitem_permute_rows)
qed

lemma num_entry_permuted:
  assumes "wf_df df" and "mset p = mset [0..<shape0 df]" and "getitem df gn = Inr g"
  shows "num_entry E (permute_rows p df) (map (\<lambda>i. g ! i) p) col v = num_entry E df g col v"
proof (cases "getitem df col")
  case (Inl e)
  then show ?thesis
    by (simp add: num_entry_def get_numerical_column_stats_series getitem_permute_rows
          getitem_df_select)
next
  case (Inr s)
  then have ls: "length s = shape0 df"
    using shape0_member [OF assms(1) getitem_Inr_member] by blast
  have lg: "length g = shape0 df"
    using shape0_member [OF assms(1) getitem_Inr_member [OF assms(3)]] .
  from ls lg assms(2)
  have "mset (select (eq_mask (map (\<lambda>i. g ! i) p) v) (map (\<lambda>i. s ! i) p))
          = mset (select (eq_mask g v) s)"
    by (intro mset_select_permuted) simp_all
  from series_stats_mset_cong [OF this] Inr show ?thesis
    by (simp add: num_entry_def get_numerical_column_stats_series getitem_permute_rows
          getitem_df_select)
qed

lemma num_entry_defined:
  assumes "get_numerical_column_stats E df col = Inr st"
  shows "\<exists>y. num_entry E df g col v = Inr y"
proof -
  from assms obtain s where s: "getitem df col = Inr s" and st: "series_stats E s = Inr st"
    by (auto simp: get_numerical_column_stats_series split: sum.splits)
  from series_stats_subset [OF st set_select, of "eq_mask g v"] s show ?thesis
    by (auto simp: num_entry_def get_numerical_column_stats_series getitem_df_select)
qed

lemma numerical_col_loop_permuted:
  assumes dist: "distinct (VAR_NAME # ALL_KEY # map K gvs)" and dg: "distinct gvs"
      and dist': "distinct (VAR_NAME # ALL_KEY # map K gvs')" and dg': "distinct gvs'"
      and sets: "set gvs' = set gvs"
      and ctx: "loop_ctx E df grp gvo K g gvs"
      and ctx': "loop_ctx E df' grp gvo' K g' gvs'"
      and stats: "\<And>col. get_numerical_column_stats E df' col = get_numerical_column_stats E df col"
      and entries: "\<And>col v. v \<in> set gvs \<Longrightarrow> num_entry E df' g' col v = num_entry E df g col v"
  shows "rel_sum (=) (\<lambda>r r'. \<exists>a' b' c'. r = results_of K a' b' c' gvs \<and> r' = results_of K a' b' c' gvs')
           (numerical_col_loop E df grp gvo cols (results_of K a b c gvs))
           (numerical_col_loop E df' grp gvo' cols (results_of K a b c gvs'))"
proof (induction cols arbitrary: a b c)
  case Nil
  show ?case by auto
next
  case (Cons col cols)
  show ?case
  proof (cases "get_numerical_column_stats E df col")
    case (Inl e)
    then show ?thesis
      by (simp add: dict_append_VAR stats)
  next
    case (Inr st)
    define h where "h v = (case num_entry E df g col v of Inr y \<Rightarrow> y | Inl e \<Rightarrow> [])" for v
    have h: "\<forall>v\<in>set gvs. num_entry E df g col v = Inr (h v)"
    proof
      fix v
      from num_entry_defined [OF Inr, of g v] obtain y where "num_entry E df g col v = Inr y" ..
      then show "num_entry E df g col v = Inr (h v)" by (simp add: h_def)
    qed
    with entries sets have h': "\<forall>v\<in>set gvs'. num_entry E df' g' col v = Inr (h v)"
      by simp
    let ?c = "\<lambda>x. if x \<in> set gvs then c x @ [h x] else c x"
    have 1: "numerical_col_loop E df grp gvo (col # cols) (results_of K a b c gvs)
           = numerical_col_loop E df grp gvo cols
               (results_of K (a @ [col]) (b @ [stats_str st]) ?c gvs)"
      using append_loop_closed [OF dist subset_refl dg h]
      by (simp add: dict_append_VAR dict_append_ALL Inr numerical_group_part [OF ctx]
            del: stats_str.simps)
    have 2: "numerical_col_loop E df' grp gvo' (col # cols) (results_of K a b c gvs')
           = numerical_col_loop E df' grp gvo' cols
               (results_of K (a @ [col]) (b @ [stats_str st]) ?c gvs')"
      using append_loop_closed [OF dist' subset_refl dg' h'] sets
      by (simp add: dict_append_VAR dict_append_ALL Inr stats numerical_group_part [OF ctx']
            del: stats_str.simps)
    show ?thesis unfolding 1 2 by (rule Cons.IH)
  qed
qed

lemma aligned_results_of:
  "aligned (results_of K a b c gvs)
     \<longleftrightarrow> length b = length a \<and> (\<forall>x\<in>set gvs. length (c x) = length a)"
  by (auto simp: aligned_def results_of_def list_all_iff)

lemma same_up_to_group_order_results_of:
  assumes "mset gvs' = mset gvs"
  shows "same_up_to_group_order (results_of K a b c gvs) (results_of K a b c gvs')"
proof -
  have "mset (map (\<lambda>x. (K x, c x)) gvs') = mset (map (\<lambda>x. (K x, c x)) gvs)"
    using assms by simp
  then show ?thesis
    by (simp add: same_up_to_group_order_def results_of_def)
qed

subsection \<open>The results dictionary when two of its keys are equal\<close>

lemma dict_append_keys_len:
  assumes "dict_append k x r = Inr r'"
  shows "map fst r' = map fst r" and "entry_len r' = (entry_len r)(k := Suc (entry_len r k))"
proof -
  from assms obtain l where l: "map_of r k = Some l" and r': "r' = AList.update k (l @ [x]) r"
    by (auto simp: dict_append_def split: option.splits)
  from l have "k \<in> set (map fst r)"
    by (metis map_of_eq_None_iff option.distinct(1) set_map)
  then show "map fst r' = map fst r"
    by (simp add: r' update_keys)
  show "entry_len r' = (entry_len r)(k := Suc (entry_len r k))"
    by (rule ext) (simp add: entry_len_def r' update_conv' l)
qed

lemma dict_append_total:
  assumes "k \<in> set (map fst r)"
  shows "\<exists>r'. dict_append k x r = Inr r'"
proof -
  from assms obtain l where "map_of r k = Some l"
    by (metis map_of_eq_None_iff not_Some_eq set_map)
  then show ?thesis by (simp add: dict_append_def)
qed

lemma append_loop_keys_len:
  assumes "append_loop f K gvs r = Inr r'"
  shows "map fst r' = map fst r
       \<and> (\<forall>j. entry_len r' j = entry_len r j + length (filter (\<lambda>x. K x = j) gvs))"
  using assms
proof (induction gvs arbitrary: r)
  case Nil
  then show ?case by simp
next
  case (Cons x gvs)
  from Cons.prems obtain y r1 where "f x = Inr y" and 1: "dict_append (K x) y r = Inr r1"
    and 2: "append_loop f K gvs r1 = Inr r'"
    by (auto split: sum.splits)
  from Cons.IH [OF 2] dict_append_keys_len [OF 1] show ?case by auto
qed

lemma append_loop_total:
  assumes "\<forall>x\<in>set gvs. \<exists>y. f x = Inr y" and "K ` set gvs \<subseteq> set (map fst r)"
  shows "\<exists>r'. append_loop f K gvs r = Inr r'"
  using assms
proof (induction gvs arbitrary: r)
  case Nil
  then show ?case by simp
next
  case (Cons x gvs)
  from Cons.prems obtain y where y: "f x = Inr y" by auto
  from Cons.prems have "K x \<in> set (map fst r)" by auto
  from dict_append_total [OF this] obtain r1 where 1: "dict_append (K x) y r = Inr r1" by blast
  from dict_append_keys_len(1) [OF 1] Cons.prems have "K ` set gvs \<subseteq> set (map fst r1)" by auto
  with Cons.IH [of r1] Cons.prems obtain r' where "append_loop f K gvs r1 = Inr r'" by auto
  with y 1 show ?case by simp
qed

lemma column_stats_error:
  assumes "get_numerical_column_stats E df col = Inl e" and "col \<in> set (columns df)"
  shows "e = ValueError"
proof -
  from assms(2) obtain s where "map_of df col = Some s"
    by (metis columns_def map_of_eq_None_iff not_Some_eq set_map)
  then have "getitem df col = Inr s" by (simp add: getitem_def)
  with assms(1) show ?thesis
    by (auto simp: get_numerical_column_stats_series series_stats_def astype_float_cases Let_def
             split: if_splits)
qed

lemma numerical_col_loop_keys_len:
  assumes ctx: "loop_ctx E df grp gvo K g gvs"
      and "numerical_col_loop E df grp gvo cols r = Inr r'"
  shows "map fst r' = map fst r
       \<and> (\<forall>j. entry_len r' j = entry_len r j
               + length cols * ((if j = VAR_NAME then 1 else 0) + (if j = ALL_KEY then 1 else 0)
                                + length (filter (\<lambda>x. K x = j) gvs)))"
  using assms(2)
proof (induction cols arbitrary: r)
  case Nil
  then show ?case by simp
next
  case (Cons col cols)
  from Cons.prems obtain r1 st r2 r3 where
    1: "dict_append VAR_NAME col r = Inr r1" and
    2: "dict_append ALL_KEY (stats_str st) r1 = Inr r2" and
    3: "append_loop (num_entry E df g col) K gvs r2 = Inr r3" and
    4: "numerical_col_loop E df grp gvo cols r3 = Inr r'"
    by (auto simp: numerical_group_part [OF ctx] simp del: stats_str.simps split: sum.splits)
  from dict_append_keys_len [OF 1] dict_append_keys_len [OF 2] append_loop_keys_len [OF 3]
    Cons.IH [OF 4]
  show ?case by (auto simp: algebra_simps)
qed

lemma numerical_col_loop_error:
  assumes ctx: "loop_ctx E df grp gvo K g gvs"
      and "numerical_col_loop E df grp gvo cols r = Inl e"
      and "VAR_NAME \<in> set (map fst r)" and "ALL_KEY \<in> set (map fst r)"
      and "K ` set gvs \<subseteq> set (map fst r)" and "set cols \<subseteq> set (columns df)"
  shows "e = ValueError"
  using assms(2-)
proof (induction cols arbitrary: r)
  case Nil
  then show ?case by simp
next
  case (Cons col cols)
  from dict_append_total [OF Cons.prems(2)] obtain r1 where
    1: "dict_append VAR_NAME col r = Inr r1" by blast
  note k1 = dict_append_keys_len(1) [OF 1]
  show ?case
  proof (cases "get_numerical_column_stats E df col")
    case (Inl e')
    with Cons.prems(1) 1 have "e = e'" by simp
    with column_stats_error [OF Inl] Cons.prems(5) show ?thesis by simp
  next
    case (Inr st)
    from Cons.prems(3) k1 have "ALL_KEY \<in> set (map fst r1)" by simp
    from dict_append_total [OF this] obtain r2 where
      2: "dict_append ALL_KEY (stats_str st) r1 = Inr r2" by blast
    note k2 = dict_append_keys_len(1) [OF 2]
    have "\<forall>x\<in>set gvs. \<exists>y. num_entry E df g col x = Inr y"
      using num_entry_defined [OF Inr] by blast
    moreover from Cons.prems(4) k1 k2 have "K ` set gvs \<subseteq> set (map fst r2)" by simp
    ultimately obtain r3 where 3: "append_loop (num_entry E df g col) K gvs r2 = Inr r3"
      using append_loop_total by blast
    from append_loop_keys_len [OF 3] k1 k2 have k3: "map fst r3 = map fst r" by simp
    from Cons.prems(1) 1 Inr 2 3 have "numerical_col_loop E df grp gvo cols r3 = Inl e"
      by (simp add: numerical_group_part [OF ctx] del: stats_str.simps)
    from Cons.IH [OF this] Cons.prems k3 show ?thesis by simp
  qed
qed

lemma group_key_neq_ALL_KEY: "group_key E gn v \<noteq> ALL_KEY"
proof
  assume "group_key E gn v = ALL_KEY"
  moreover have "CHR 0x20 \<in> set (group_key E gn v)" by (simp add: group_key_def)
  moreover have "CHR 0x20 \<notin> set ALL_KEY" by (simp add: ALL_KEY_def)
  ultimately show False by simp
qed

lemma not_distinct_twice:
  assumes "\<not> distinct (map K gvs)"
  shows "\<exists>x\<in>set gvs. 2 \<le> length (filter (\<lambda>y. K y = K x) gvs)"
  using assms
proof (induction gvs)
  case Nil
  then show ?case by simp
next
  case (Cons a gvs)
  show ?case
  proof (cases "K a \<in> K ` set gvs")
    case True
    then obtain y where "y \<in> set gvs" and "K y = K a" by auto
    then have "filter (\<lambda>y. K y = K a) gvs \<noteq> []"
      by (auto simp: filter_empty_conv)
    then have "1 \<le> length (filter (\<lambda>y. K y = K a) gvs)"
      by (cases "filter (\<lambda>y. K y = K a) gvs") auto
    then show ?thesis by (intro bexI [of _ a]) auto
  next
    case False
    with Cons.prems have "\<not> distinct (map K gvs)" by simp
    from Cons.IH [OF this] obtain x where "x \<in> set gvs"
      and "2 \<le> length (filter (\<lambda>y. K y = K x) gvs)" by blast
    then show ?thesis by (intro bexI [of _ x]) auto
  qed
qed

lemma fold_update_exact:
  assumes "\<forall>(k, l)\<in>set acc. l = []"
  shows "fold (\<lambda>gv r. AList.update (K gv) ([]::string list) r) gvs acc
           = acc @ map (\<lambda>k. (k, [])) (unique (filter (\<lambda>k. k \<notin> fst ` set acc) (map K gvs)))"
  using assms
proof (induction gvs arbitrary: acc)
  case Nil
  then show ?case by simp
next
  case (Cons x gvs)
  show ?case
  proof (cases "K x \<in> fst ` set acc")
    case True
    then obtain l where "map_of acc (K x) = Some l"
      by (metis map_of_eq_None_iff not_Some_eq)
    moreover from this Cons.prems have "l = []"
      by (auto dest: map_of_SomeD)
    ultimately have "AList.update (K x) [] acc = acc"
      by (simp add: update_triv)
    with Cons.IH [OF Cons.prems] True show ?thesis by simp
  next
    case False
    then have u: "AList.update (K x) [] acc = acc @ [(K x, [])]"
      by (induction acc) auto
    from Cons.prems have "\<forall>(k, l)\<in>set (acc @ [(K x, [])]). l = []" by auto
    from Cons.IH [OF this]
    have "fold (\<lambda>gv r. AList.update (K gv) [] r) gvs (acc @ [(K x, [])])
        = (acc @ [(K x, [])]) @ map (\<lambda>k. (k, []))
            (unique (filter (\<lambda>k. k \<notin> fst ` set (acc @ [(K x, [])])) (map K gvs)))" .
    moreover have "filter (\<lambda>k. k \<notin> fst ` set (acc @ [(K x, [])])) (map K gvs)
        = filter (\<lambda>y. y \<noteq> K x) (filter (\<lambda>k. k \<notin> fst ` set acc) (map K gvs))"
      by (auto intro: filter_cong)
    ultimately show ?thesis using False u by simp
  qed
qed

lemma aligned_entry_len:
  assumes "aligned r" and "j \<in> fst ` set r" and "k \<in> fst ` set r"
  shows "entry_len r j = entry_len r k"
proof -
  from assms(2) obtain k0 l0 rest where r: "r = (k0, l0) # rest"
    by (cases r) auto
  with assms(1) have all: "\<forall>(k', l')\<in>set r. length l' = length l0"
    by (auto simp: aligned_def list_all_iff)
  have "entry_len r i = length l0" if "i \<in> fst ` set r" for i
  proof -
    from that obtain l where l: "map_of r i = Some l"
      by (metis map_of_eq_None_iff not_Some_eq)
    then have "(i, l) \<in> set r" by (rule map_of_SomeD)
    with all have "length l = length l0" by auto
    with l show ?thesis by (simp add: entry_len_def)
  qed
  with assms(2,3) show ?thesis by simp
qed

lemma initialize_results_dict_exact:
  assumes "getitem df gn = Inr g"
  shows "initialize_results_dict E df (Some gn)
           = Inr (init_dict (group_key E gn) (unique g), Some (unique g))"
proof -
  have "fold (\<lambda>gv r. AList.update (group_key E gn gv) ([]::string list) r) (unique g)
          [(VAR_NAME, []), (ALL_KEY, [])]
        = init_dict (group_key E gn) (unique g)"
    unfolding init_dict_def by (subst fold_update_exact) simp_all
  with assms show ?thesis
    by (simp add: initialize_results_dict_def Let_def)
qed

lemma init_dict_empty: "(k, l) \<in> set (init_dict K gvs) \<Longrightarrow> l = []"
  by (auto simp: init_dict_def)

lemma init_dict_keys: "fst ` set (init_dict K gvs) = {VAR_NAME, ALL_KEY} \<union> K ` set gvs"
  by (auto simp: init_dict_def image_iff)

lemma entry_len_init_dict [simp]: "entry_len (init_dict K gvs) j = 0"
  by (auto simp: entry_len_def split: option.splits dest!: map_of_SomeD init_dict_empty)

lemma aligned_init_dict: "aligned (init_dict K gvs)"
  by (simp add: aligned_def init_dict_def list_all_iff)

lemma same_up_to_group_order_init_dict:
  assumes "mset gvs' = mset gvs"
  shows "same_up_to_group_order (init_dict K gvs) (init_dict K gvs')"
proof -
  let ?f = "\<lambda>gvs. filter (\<lambda>k. k \<noteq> VAR_NAME \<and> k \<noteq> ALL_KEY) (map K gvs)"
  from assms have "mset (?f gvs') = mset (?f gvs)" by simp
  then have "mset (unique (?f gvs')) = mset (unique (?f gvs))"
    by (rule unique_mset_cong)
  then have "mset (map (\<lambda>k. (k, []::string list)) (unique (?f gvs')))
           = mset (map (\<lambda>k. (k, [])) (unique (?f gvs)))"
    by simp
  then show ?thesis
    by (simp add: same_up_to_group_order_def init_dict_def)
qed

lemma numerical_analysis_label_clash:
  assumes gi: "getitem df gn = Inr g"
      and nd: "\<not> distinct (VAR_NAME # ALL_KEY # map (group_key E gn) (unique g))"
      and ne: "analysis_cols df (Some gn) \<noteq> []"
  shows "get_numerical_var_analysis E df (Some gn) = Inl ValueError"
proof -
  let ?K = "group_key E gn"
  let ?gvs = "unique g"
  let ?cols = "analysis_cols df (Some gn)"
  let ?r0 = "init_dict ?K ?gvs"
  let ?w = "\<lambda>j. (if j = VAR_NAME then 1 else 0) + (if j = ALL_KEY then 1 else 0)
               + length (filter (\<lambda>x. ?K x = j) ?gvs)"
  have ctx: "loop_ctx E df (Some gn) (Some ?gvs) ?K g ?gvs"
    by (simp add: loop_ctx_def gi)
  have keys: "fst ` set ?r0 = {VAR_NAME, ALL_KEY} \<union> ?K ` set ?gvs"
    by (rule init_dict_keys)
  have sub: "set ?cols \<subseteq> set (columns df)"
    by (auto simp: analysis_cols_def)
  have A: "get_numerical_var_analysis E df (Some gn)
             = (case numerical_col_loop E df (Some gn) (Some ?gvs) ?cols ?r0 of
                  Inl e \<Rightarrow> Inl e | Inr r \<Rightarrow> DataFrame r)"
    by (simp add: get_numerical_var_analysis_def initialize_results_dict_exact [OF gi])
  show ?thesis
  proof (cases "numerical_col_loop E df (Some gn) (Some ?gvs) ?cols ?r0")
    case (Inl e)
    have "e = ValueError"
      by (rule numerical_col_loop_error [OF ctx Inl _ _ _ sub]) (use keys in auto)
    with A Inl show ?thesis by simp
  next
    case (Inr r')
    from numerical_col_loop_keys_len [OF ctx Inr]
    have k': "map fst r' = map fst ?r0"
      and len: "\<And>j. entry_len r' j = length ?cols * ?w j"
      by simp_all
    from k' have "set (map fst r') = set (map fst ?r0)" by simp
    with keys have keys': "fst ` set r' = {VAR_NAME, ALL_KEY} \<union> ?K ` set ?gvs" by simp
    have wA: "?w ALL_KEY = 1"
      by (simp add: group_key_neq_ALL_KEY)
    have "\<exists>j\<in>fst ` set r'. 2 \<le> ?w j"
    proof (cases "VAR_NAME \<in> ?K ` set ?gvs")
      case True
      then obtain x where "x \<in> set ?gvs" and "?K x = VAR_NAME" by auto
      then have "filter (\<lambda>x. ?K x = VAR_NAME) ?gvs \<noteq> []"
        unfolding filter_empty_conv by blast
      then have "1 \<le> length (filter (\<lambda>x. ?K x = VAR_NAME) ?gvs)"
        by (cases "filter (\<lambda>x. ?K x = VAR_NAME) ?gvs") auto
      then have "2 \<le> ?w VAR_NAME" by simp
      with keys' show ?thesis by blast
    next
      case False
      moreover have "ALL_KEY \<notin> ?K ` set ?gvs"
        using group_key_neq_ALL_KEY by (metis imageE)
      ultimately have "\<not> distinct (map ?K ?gvs)" using nd by auto
      from not_distinct_twice [OF this] obtain x where "x \<in> set ?gvs"
        and "2 \<le> length (filter (\<lambda>y. ?K y = ?K x) ?gvs)" by blast
      then have "?K x \<in> fst ` set r'" and "2 \<le> ?w (?K x)"
        using keys' by auto
      then show ?thesis by blast
    qed
    then obtain j where j: "j \<in> fst ` set r'" and w: "2 \<le> ?w j" by blast
    have "\<not> aligned r'"
    proof
      assume "aligned r'"
      from aligned_entry_len [OF this j, of ALL_KEY] keys'
      have "entry_len r' j = entry_len r' ALL_KEY" by simp
      then have "length ?cols * ?w j = length ?cols * 1"
        unfolding len wA .
      with ne w show False by simp
    qed
    with A Inr show ?thesis by (simp add: DataFrame_def)
  qed
qed

lemma numerical_analysis_no_columns:
  assumes gi: "getitem df gn = Inr g" and ne: "analysis_cols df (Some gn) = []"
  shows "get_numerical_var_analysis E df (Some gn) = Inr (init_dict (group_key E gn) (unique g))"
  by (simp add: get_numerical_var_analysis_def initialize_results_dict_exact [OF gi] ne
        DataFrame_def aligned_init_dict)

subsection \<open>Permuted rows, keys pairwise different\<close>

lemma row_permutation_distinct_labels:
  assumes wf: "wf_df df" and perm: "mset p = mset [0..<shape0 df]"
      and ld: "labels_distinct E df grp"
  shows "rel_sum (=) same_up_to_group_order
           (get_numerical_var_analysis E df grp)
           (get_numerical_var_analysis E (permute_rows p df) grp)
       \<and> (grp = None \<longrightarrow>
            get_numerical_var_analysis E (permute_rows p df) grp
              = get_numerical_var_analysis E df grp)"
proof (cases grp)
  case None
  let ?K = "\<lambda>x::cell. []::string"
  let ?c = "\<lambda>x::cell. []::string list"
  have init: "initialize_results_dict E d None = Inr (results_of ?K [] [] ?c [], None)" for d
    by (simp add: initialize_results_dict_def results_of_def)
  have ctx: "loop_ctx E d None None ?K [] []" for d
    by (simp add: loop_ctx_def)
  have d: "distinct (VAR_NAME # ALL_KEY # map ?K [])" by simp
  have "rel_sum (=) (\<lambda>r r'. \<exists>a' b' c'. r = results_of ?K a' b' c' []
                                \<and> r' = results_of ?K a' b' c' [])
          (numerical_col_loop E df None None (analysis_cols df None) (results_of ?K [] [] ?c []))
          (numerical_col_loop E (permute_rows p df) None None (analysis_cols df None)
             (results_of ?K [] [] ?c []))"
    by (rule numerical_col_loop_permuted [where g = "[]" and g' = "[]"])
       (simp_all add: ctx column_stats_permuted [OF wf perm])
  then have "numerical_col_loop E (permute_rows p df) None None (analysis_cols df None)
               (results_of ?K [] [] ?c [])
           = numerical_col_loop E df None None (analysis_cols df None) (results_of ?K [] [] ?c [])"
    by (cases rule: rel_sum.cases) auto
  then have eq: "get_numerical_var_analysis E (permute_rows p df) None
                   = get_numerical_var_analysis E df None"
    by (simp add: get_numerical_var_analysis_def init)
  have "rel_sum (=) same_up_to_group_order x x" for x :: "exn + results"
    by (cases x) (simp_all add: same_up_to_group_order_def)
  with eq None show ?thesis by simp
next
  case (Some gn)
  show ?thesis
  proof (cases "getitem df gn")
    case (Inl e)
    then have "get_numerical_var_analysis E df grp = Inl e"
      and "get_numerical_var_analysis E (permute_rows p df) grp = Inl e"
      by (simp_all add: get_numerical_var_analysis_def initialize_results_dict_def Some
            getitem_permute_rows)
    with Some show ?thesis by simp
  next
    case (Inr g)
    let ?df' = "permute_rows p df"
    let ?g' = "map (\<lambda>i. g ! i) p"
    let ?K = "group_key E gn"
    let ?c = "\<lambda>x::cell. []::string list"
    have g': "getitem ?df' gn = Inr ?g'"
      by (simp add: getitem_permute_rows Inr)
    have "length g = shape0 df"
      using shape0_member [OF wf getitem_Inr_member [OF Inr]] .
    with perm have "mset ?g' = mset g"
      by (intro mset_permuted_series) simp
    then have ms: "mset (unique ?g') = mset (unique g)"
      by (rule unique_mset_cong)
    then have sets: "set (unique ?g') = set (unique g)"
      by (rule mset_eq_setD)
    from ld Some Inr have dist: "distinct (VAR_NAME # ALL_KEY # map ?K (unique g))"
      by (simp add: labels_distinct_def)
    from ms have "mset (map ?K (unique ?g')) = mset (map ?K (unique g))" by simp
    then have "distinct (map ?K (unique ?g')) \<longleftrightarrow> distinct (map ?K (unique g))"
      by (rule mset_eq_imp_distinct_iff)
    with dist sets have dist': "distinct (VAR_NAME # ALL_KEY # map ?K (unique ?g'))"
      by simp
    have init: "initialize_results_dict E df grp
                  = Inr (results_of ?K [] [] ?c (unique g), Some (unique g))"
      unfolding Some by (rule initialize_results_dict_Some [OF Inr dist])
    have init': "initialize_results_dict E ?df' grp
                  = Inr (results_of ?K [] [] ?c (unique ?g'), Some (unique ?g'))"
      unfolding Some by (rule initialize_results_dict_Some [OF g' dist'])
    have ctx: "loop_ctx E df grp (Some (unique g)) ?K g (unique g)"
      by (simp add: loop_ctx_def Some Inr)
    have ctx': "loop_ctx E ?df' grp (Some (unique ?g')) ?K ?g' (unique ?g')"
      by (simp add: loop_ctx_def Some g')
    let ?L = "numerical_col_loop E df grp (Some (unique g)) (analysis_cols df grp)
                (results_of ?K [] [] ?c (unique g))"
    let ?L' = "numerical_col_loop E ?df' grp (Some (unique ?g')) (analysis_cols df grp)
                (results_of ?K [] [] ?c (unique ?g'))"
    have rel: "rel_sum (=) (\<lambda>r r'. \<exists>a' b' c'. r = results_of ?K a' b' c' (unique g)
                                  \<and> r' = results_of ?K a' b' c' (unique ?g')) ?L ?L'"
      by (rule numerical_col_loop_permuted [OF dist distinct_unique dist' distinct_unique sets
                 ctx ctx' column_stats_permuted [OF wf perm] num_entry_permuted [OF wf perm Inr]])
    have A: "get_numerical_var_analysis E df grp
               = (case ?L of Inl e \<Rightarrow> Inl e | Inr r \<Rightarrow> DataFrame r)"
      by (simp add: get_numerical_var_analysis_def init)
    have A': "get_numerical_var_analysis E ?df' grp
               = (case ?L' of Inl e \<Rightarrow> Inl e | Inr r \<Rightarrow> DataFrame r)"
      by (simp add: get_numerical_var_analysis_def init')
    have "rel_sum (=) same_up_to_group_order
        (case ?L of Inl e \<Rightarrow> Inl e | Inr r \<Rightarrow> DataFrame r)
        (case ?L' of Inl e \<Rightarrow> Inl e | Inr r \<Rightarrow> DataFrame r)"
    proof (cases ?L)
      case (Inl e)
      with rel have "?L' = Inl e" by (cases ?L') auto
      with Inl show ?thesis by simp
    next
      case (Inr r)
      with rel obtain r' a' b' c' where L': "?L' = Inr r'"
        and r: "r = results_of ?K a' b' c' (unique g)"
        and r': "r' = results_of ?K a' b' c' (unique ?g')"
        by (cases ?L') auto
      have "aligned r' \<longleftrightarrow> aligned r"
        unfolding r r' aligned_results_of sets ..
      moreover have "same_up_to_group_order r r'"
        unfolding r r' by (rule same_up_to_group_order_results_of [OF ms])
      ultimately show ?thesis using Inr L'
        by (simp add: DataFrame_def)
    qed
    with A A' Some show ?thesis by simp
  qed
qed

section \<open>The claims\<close>

subsection \<open>C1: the categorical analysis without a grouping column\<close>



subsection \<open>C2: missing values of the grouping column\<close>

text \<open>
  C2. The claim is that the group values contain only the non-missing values of the
  grouping column. \<^verbatim>\<open>_initialize_results_dict\<close> takes them with \<^verbatim>\<open>df[group].unique()\<close>,
  which keeps the missing value, where the categories of a column are taken with
  \<^verbatim>\<open>df[col].dropna().unique()\<close>. On the grouping column "Sex" = [M, nan] the group
  values are M and nan and the dictionary has the key "Sex nan"; no row is in that
  group, so the categorical analysis divides by a zero group total and raises
  ZeroDivisionError, and the numerical analysis returns a column "Sex nan" of
  \<^verbatim>\<open>"nan (nan) [nan, nan]"\<close>.
\<close>

theorem missing_group_value_is_a_group:
  "initialize_results_dict example_env nan_group_table (Some ''Sex'') =
     Inr ([(''Variable Name'', []), (''All'', []), (''Sex M'', []), (''Sex nan'', [])],
          Some [Str ''M'', NaN])
   \<and> get_categorical_var_analysis example_env nan_group_table (Some ''Sex'') = Inl ZeroDivisionError
   \<and> get_numerical_var_analysis example_env nan_group_num_table (Some ''Sex'') =
       Inr [(''Variable Name'', [''X'']),
            (''All'', [''1.50 (0.71) [1.00, 2.00]'']),
            (''Sex M'', [''1.00 (nan) [1.00, 1.00]'']),
            (''Sex nan'', [''nan (nan) [nan, nan]''])]"
  by code_simp

subsection \<open>C3: the numerical example\<close>

text \<open>
  C3 as stated fails on its last entry. The group F has the single value 20, and
  the sample standard deviation (\<^verbatim>\<open>Series.std\<close>, \<^verbatim>\<open>ddof=1\<close>) of a single value is
  nan, not 0: the entry is \<^verbatim>\<open>"20.00 (nan) [20.00, 20.00]"\<close>.
\<close>

theorem numerical_example_counterexample:
  "get_numerical_var_analysis example_env age_sex_table (Some ''Sex'') \<noteq>
     Inr [(''Variable Name'', [''Age'']),
          (''All'', [''20.00 (10.00) [10.00, 30.00]'']),
          (''Sex M'', [''20.00 (14.14) [10.00, 30.00]'']),
          (''Sex F'', [''20.00 (0.00) [20.00, 20.00]''])]
   \<and> get_numerical_column_stats example_env
        (df_select age_sex_table (eq_mask [Str ''M'', Str ''F'', Str ''M''] (Str ''F''))) ''Age''
      = Inr (Fin 20, Nan, Fin 20, Fin 20)"
  by code_simp

text \<open>
  C3, amended. For "Age" = [10, 20, 30] and the grouping column "Sex" = [M, F, M]
  the numerical analysis returns the Age row with "All" =
  \<^verbatim>\<open>"20.00 (10.00) [10.00, 30.00]"\<close>, "Sex M" = \<^verbatim>\<open>"20.00 (14.14) [10.00, 30.00]"\<close> and
  "Sex F" = \<^verbatim>\<open>"20.00 (nan) [20.00, 20.00]"\<close>: mean, sample standard deviation, minimum
  and maximum over the non-missing values.
\<close>

theorem numerical_example:
  "get_numerical_var_analysis example_env age_sex_table (Some ''Sex'') =
     Inr [(''Variable Name'', [''Age'']),
          (''All'', [''20.00 (10.00) [10.00, 30.00]'']),
          (''Sex M'', [''20.00 (14.14) [10.00, 30.00]'']),
          (''Sex F'', [''20.00 (nan) [20.00, 20.00]''])]"
  by code_simp

subsection \<open>C4: the group counts add up\<close>



subsection \<open>C5: the lists of the accumulator have one length\<close>

text \<open>
  C5 as stated fails. A group value whose key \<^verbatim>\<open>f"{group} {group_val}"\<close> is already
  a key of the dictionary shares its list: for the group column "Variable" with the
  value "Name" the key is "Variable Name", that list receives the row label and the
  group entry of every row, and \<^verbatim>\<open>DataFrame(results)\<close> raises ValueError. This holds
  for both analyses.
\<close>

theorem accumulator_aligned_counterexample:
  "initialize_results_dict example_env clash_table (Some ''Variable'') =
     Inr ([(''Variable Name'', []), (''All'', [])], Some [Str ''Name''])
   \<and> categorical_col_loop example_env clash_table (Some ''Variable'') (Some [Str ''Name''])
       (analysis_cols clash_table (Some ''Variable'')) [(''Variable Name'', []), (''All'', [])] =
     Inr [(''Variable Name'', [''X : a'', ''1 (100.00%)'']), (''All'', [''1 (100.00%)''])]
   \<and> \<not> aligned [(''Variable Name'', [''X : a'', ''1 (100.00%)'']), (''All'', [''1 (100.00%)''])]
   \<and> get_categorical_var_analysis example_env clash_table (Some ''Variable'') = Inl ValueError
   \<and> get_numerical_var_analysis example_env [(''Variable'', [Str ''Name'']), (''X'', [Num 1])]
       (Some ''Variable'') = Inl ValueError"
  by code_simp

text \<open>
  C5, amended. When the keys of the dictionary are pairwise different
  (\<open>labels_distinct\<close>), every dictionary that the column loop of either analysis
  returns has all its lists at one length, and the conversion to the summary table
  succeeds on it: the analysis returns that dictionary. (A loop that raises, as the
  categorical one does on a zero group total, returns no dictionary.)
\<close>

theorem accumulator_aligned:
  assumes "labels_distinct E df grp"
      and "initialize_results_dict E df grp = Inr (r0, gvo)"
  shows "(categorical_col_loop E df grp gvo (analysis_cols df grp) r0 = Inr r
            \<longrightarrow> aligned r \<and> get_categorical_var_analysis E df grp = Inr r)
       \<and> (numerical_col_loop E df grp gvo (analysis_cols df grp) r0 = Inr r'
            \<longrightarrow> aligned r' \<and> get_numerical_var_analysis E df grp = Inr r')"
proof -
  from init_shaped [OF assms] obtain K g gvs where
    d: "distinct (VAR_NAME # ALL_KEY # map K gvs)" and dg: "distinct gvs" and
    ctx: "loop_ctx E df grp gvo K g gvs" and sh: "shaped K gvs 0 r0"
    by blast
  have "aligned r" if "categorical_col_loop E df grp gvo (analysis_cols df grp) r0 = Inr r"
    using categorical_col_loop_shaped [OF d dg ctx sh that] shaped_aligned by blast
  moreover have "aligned r'" if "numerical_col_loop E df grp gvo (analysis_cols df grp) r0 = Inr r'"
    using numerical_col_loop_shaped [OF d dg ctx sh that] shaped_aligned by blast
  ultimately show ?thesis
    using assms(2)
    by (auto simp: get_categorical_var_analysis_def get_numerical_var_analysis_def DataFrame_def)
qed

theorem accumulator_aligned_witness:
  "labels_distinct example_env sex_x_table (Some ''Sex'')
   \<and> aligned [(''Variable Name'', [''X : a'', ''X : b'']),
              (''All'', [''1 (33.33%)'', ''2 (66.67%)'']),
              (''Sex M'', [''1 (50.00%)'', ''1 (50.00%)'']),
              (''Sex F'', [''0 (0.00%)'', ''1 (100.00%)''])]
   \<and> get_categorical_var_analysis example_env sex_x_table (Some ''Sex'') =
       Inr [(''Variable Name'', [''X : a'', ''X : b'']),
            (''All'', [''1 (33.33%)'', ''2 (66.67%)'']),
            (''Sex M'', [''1 (50.00%)'', ''1 (50.00%)'']),
            (''Sex F'', [''0 (0.00%)'', ''1 (100.00%)''])]
   \<and> labels_distinct example_env age_sex_table (Some ''Sex'')
   \<and> aligned [(''Variable Name'', [''Age'']),
              (''All'', [''20.00 (10.00) [10.00, 30.00]'']),
              (''Sex M'', [''20.00 (14.14) [10.00, 30.00]'']),
              (''Sex F'', [''20.00 (nan) [20.00, 20.00]''])]
   \<and> get_numerical_var_analysis example_env age_sex_table (Some ''Sex'') =
       Inr [(''Variable Name'', [''Age'']),
            (''All'', [''20.00 (10.00) [10.00, 30.00]'']),
            (''Sex M'', [''20.00 (14.14) [10.00, 30.00]'']),
            (''Sex F'', [''20.00 (nan) [20.00, 20.00]''])]"
proof -
  have l1: "labels_distinct example_env sex_x_table (Some ''Sex'')"
    by code_simp
  have i1: "initialize_results_dict example_env sex_x_table (Some ''Sex'') =
      Inr ([(''Variable Name'', []), (''All'', []), (''Sex M'', []), (''Sex F'', [])],
           Some [Str ''M'', Str ''F''])"
    by code_simp
  have c1: "categorical_col_loop example_env sex_x_table (Some ''Sex'') (Some [Str ''M'', Str ''F''])
      (analysis_cols sex_x_table (Some ''Sex''))
      [(''Variable Name'', []), (''All'', []), (''Sex M'', []), (''Sex F'', [])] =
      Inr [(''Variable Name'', [''X : a'', ''X : b'']),
           (''All'', [''1 (33.33%)'', ''2 (66.67%)'']),
           (''Sex M'', [''1 (50.00%)'', ''1 (50.00%)'']),
           (''Sex F'', [''0 (0.00%)'', ''1 (100.00%)''])]"
    by code_simp
  have l2: "labels_distinct example_env age_sex_table (Some ''Sex'')"
    by code_simp
  have i2: "initialize_results_dict example_env age_sex_table (Some ''Sex'') =
      Inr ([(''Variable Name'', []), (''All'', []), (''Sex M'', []), (''Sex F'', [])],
           Some [Str ''M'', Str ''F''])"
    by code_simp
  have c2: "numerical_col_loop example_env age_sex_table (Some ''Sex'') (Some [Str ''M'', Str ''F''])
      (analysis_cols age_sex_table (Some ''Sex''))
      [(''Variable Name'', []), (''All'', []), (''Sex M'', []), (''Sex F'', [])] =
      Inr [(''Variable Name'', [''Age'']),
           (''All'', [''20.00 (10.00) [10.00, 30.00]'']),
           (''Sex M'', [''20.00 (14.14) [10.00, 30.00]'']),
           (''Sex F'', [''20.00 (nan) [20.00, 20.00]''])]"
    by code_simp
  from accumulator_aligned [OF l1 i1] c1 accumulator_aligned [OF l2 i2] c2 l1 l2
  show ?thesis by blast
qed

subsection \<open>C6: backend failures\<close>

text \<open>
  C6 as stated fails: the source has no error kinds. Every \<^verbatim>\<open>except psycopg2.Error\<close>
  clause raises the generic \<^verbatim>\<open>Exception(e.pgerror)\<close>, whichever operation failed.
\<close>

theorem backend_errors_reraised_counterexample:
  "connect (PgError (Some ''boom'') :: unit pg) = Inl (Exception (Some ''boom''))
   \<and> connect (PgError (Some ''boom'') :: unit pg) \<noteq> Inl (ConnectionError (Some ''boom''))
   \<and> fst (create_table ''public'' ''t'' [(''a'', ''text'')] None (PgError (Some ''boom'')) empty_world)
       = Inl (Exception (Some ''boom''))
   \<and> fst (create_table ''public'' ''t'' [(''a'', ''text'')] None (PgError (Some ''boom'')) empty_world)
       \<noteq> Inl (SchemaError (Some ''boom''))
   \<and> fst (create_and_fill_table ''public'' [(''a'', [Str ''x''])] ''t'' [(''a'', ''text'')] None
            (PgOk ()) (PgError (Some ''boom'')) empty_world)
       = Inl (Exception (Some ''boom''))
   \<and> fst (create_and_fill_table ''public'' [(''a'', [Str ''x''])] ''t'' [(''a'', ''text'')] None
            (PgOk ()) (PgError (Some ''boom'')) empty_world)
       \<noteq> Inl (LoadError (Some ''boom''))
   \<and> fst (get_table ''public'' ''t'' None (PgError (Some ''boom'')) empty_world)
       = Inl (Exception (Some ''boom''))
   \<and> fst (get_table ''public'' ''t'' None (PgError (Some ''boom'')) empty_world)
       \<noteq> Inl (QueryError (Some ''boom''))
   \<and> fst (get_column_names ''t'' (PgError (Some ''boom'')) empty_world)
       = Inl (Exception (Some ''boom''))
   \<and> fst (get_column_names ''t'' (PgError (Some ''boom'')) empty_world)
       \<noteq> Inl (QueryError (Some ''boom''))"
  by (simp add: connect_def create_table_def create_and_fill_table_def get_table_def
        get_column_names_def getitem_def Let_def)

text \<open>
  C6, amended. In \<^verbatim>\<open>_connect\<close>, \<^verbatim>\<open>_create_table\<close>, \<^verbatim>\<open>create_and_fill_table\<close> (its
  CREATE TABLE and its bulk copy), \<^verbatim>\<open>get_table\<close> and \<^verbatim>\<open>get_column_names\<close>, a
  \<^verbatim>\<open>psycopg2.Error\<close> raised by the backend is caught where the call is made and raised
  again as a generic \<^verbatim>\<open>Exception\<close> carrying the \<^verbatim>\<open>pgerror\<close> of the backend error; the
  operation never returns normally on such a failure. (The bulk copy is reached only
  when the table has every column of the type map; otherwise the reordering raises
  KeyError first.)
\<close>

theorem backend_errors_reraised:
  "connect (PgError pgerror) = Inl (Exception pgerror)
   \<and> fst (create_table schema table_name types primary_key (PgError pgerror) w)
       = Inl (Exception pgerror)
   \<and> fst (create_and_fill_table schema df table_name types primary_key (PgError pgerror) r2 w)
       = Inl (Exception pgerror)
   \<and> fst (create_and_fill_table schema df table_name types primary_key (PgOk ()) (PgError pgerror) w)
       = (case select_columns df (map fst types) of
            Inl e \<Rightarrow> Inl e
          | Inr df' \<Rightarrow> Inl (Exception pgerror))
   \<and> fst (get_table schema table_name cols (PgError pgerror) w') = Inl (Exception pgerror)
   \<and> fst (get_column_names table_name (PgError pgerror) w'') = Inl (Exception pgerror)"
  by (simp add: connect_def create_table_def create_and_fill_table_def get_table_def
        get_column_names_def Let_def split: sum.splits)

subsection \<open>C7: a failing bulk load\<close>

text \<open>
  C7 as stated fails on the kind of the error: when the CREATE TABLE succeeds and
  the bulk copy raises a \<^verbatim>\<open>psycopg2.Error\<close>, the error that reaches the caller is the
  generic \<^verbatim>\<open>Exception(e.pgerror)\<close>, not a LoadError.
\<close>

theorem load_failure_counterexample:
  "fst (create_and_fill_table ''public'' [(''a'', [Str ''x''])] ''t'' [(''a'', ''text'')] None
          (PgOk ()) (PgError (Some ''boom'')) empty_world)
     = Inl (Exception (Some ''boom''))
   \<and> fst (create_and_fill_table ''public'' [(''a'', [Str ''x''])] ''t'' [(''a'', ''text'')] None
          (PgOk ()) (PgError (Some ''boom'')) empty_world)
     \<noteq> Inl (LoadError (Some ''boom''))"
  by (simp add: create_table_def create_and_fill_table_def getitem_def Let_def)

text \<open>
  C7, amended. When the CREATE TABLE succeeds, the table has every column of the
  type map, and the bulk copy raises a \<^verbatim>\<open>psycopg2.Error\<close>: the caller gets a generic
  \<^verbatim>\<open>Exception\<close> carrying the \<^verbatim>\<open>pgerror\<close> of the backend error, the temporary file is gone
  when the error propagates, one statement (the CREATE TABLE) was executed, and the
  new table stays in the database with its columns and no rows.
\<close>

theorem load_failure:
  assumes "select_columns df (map fst types) = Inr df'"
  shows "fst (create_and_fill_table schema df table_name types primary_key (PgOk ())
                (PgError pgerror) w) = Inl (Exception pgerror)
       \<and> TEMP \<notin> files (snd (create_and_fill_table schema df table_name types primary_key (PgOk ())
                (PgError pgerror) w))
       \<and> tables (snd (create_and_fill_table schema df table_name types primary_key (PgOk ())
                (PgError pgerror) w)) table_name = Some (map (\<lambda>(c, ty). (c, [])) types)
       \<and> executed (snd (create_and_fill_table schema df table_name types primary_key (PgOk ())
                (PgError pgerror) w))
           = executed w @ [create_table_query schema table_name types primary_key]"
  using assms
  by (simp add: create_table_def create_and_fill_table_def Let_def)

theorem load_failure_witness:
  "select_columns [(''a'', [Str ''x''])] (map fst [(''a'', ''text'')]) = Inr [(''a'', [Str ''x''])]
   \<and> fst (create_and_fill_table ''public'' [(''a'', [Str ''x''])] ''t'' [(''a'', ''text'')] None
            (PgOk ()) (PgError (Some ''boom'')) empty_world) = Inl (Exception (Some ''boom''))
   \<and> TEMP \<notin> files (snd (create_and_fill_table ''public'' [(''a'', [Str ''x''])] ''t''
                           [(''a'', ''text'')] None (PgOk ()) (PgError (Some ''boom'')) empty_world))
   \<and> tables (snd (create_and_fill_table ''public'' [(''a'', [Str ''x''])] ''t''
                    [(''a'', ''text'')] None (PgOk ()) (PgError (Some ''boom'')) empty_world)) ''t''
       = Some [(''a'', [])]"
proof -
  have s: "select_columns [(''a'', [Str ''x''])] (map fst [(''a'', ''text'')]) = Inr [(''a'', [Str ''x''])]"
    by (simp add: getitem_def)
  from load_failure [OF s, of "''public''" "''t''" None "Some ''boom''" empty_world] s
  show ?thesis by simp
qed

subsection \<open>C8: the CREATE TABLE statement\<close>

text \<open>
  C8. For a type map (a dict: its keys are distinct), \<^verbatim>\<open>_create_table\<close> executes
  exactly one statement, whether the backend accepts it or not, and the statement
  is the one of the specification (\<open>spec_create_table_statement\<close>): the columns in
  the order of the type map, each as \<^verbatim>\<open>"name" type\<close>, joined by commas, and, when a
  primary key is given, the clause \<^verbatim>\<open>PRIMARY KEY (...)\<close> over the quoted key columns,
  joined by commas, before the closing parenthesis of the statement.
\<close>

theorem create_table_statement:
  assumes "distinct (map fst types)"
  shows "executed (snd (create_table schema table_name types primary_key r w))
           = executed w @ [spec_create_table_statement schema table_name types primary_key]"
  using reformat_columns_and_types_pairs [OF assms]
  by (cases r; cases primary_key)
     (simp_all add: create_table_def create_table_query_def spec_create_table_statement_def
        reformat_columns_def Let_def)

theorem create_table_statement_witness:
  "distinct (map fst [(''name'', ''text''), (''Age'', ''numeric'')])
   \<and> executed (snd (create_table ''public'' ''t'' [(''name'', ''text''), (''Age'', ''numeric'')]
                      (Some [''name'', ''Age'']) (PgOk ()) empty_world))
       = [''CREATE TABLE public.'' @ dq @ ''t'' @ dq @ '' ('' @ dq @ ''name'' @ dq @ '' text,''
            @ dq @ ''Age'' @ dq @ '' numeric, PRIMARY KEY ('' @ dq @ ''name'' @ dq @ '',''
            @ dq @ ''Age'' @ dq @ '') );'']"
proof -
  have d: "distinct (map fst [(''name'', ''text''), (''Age'', ''numeric'')])"
    by simp
  have e: "executed empty_world @ [spec_create_table_statement ''public'' ''t''
              [(''name'', ''text''), (''Age'', ''numeric'')] (Some [''name'', ''Age''])]
       = [''CREATE TABLE public.'' @ dq @ ''t'' @ dq @ '' ('' @ dq @ ''name'' @ dq @ '' text,''
            @ dq @ ''Age'' @ dq @ '' numeric, PRIMARY KEY ('' @ dq @ ''name'' @ dq @ '',''
            @ dq @ ''Age'' @ dq @ '') );'']"
    by code_simp
  from create_table_statement [OF d, of "''public''" "''t''" "Some [''name'', ''Age'']" "PgOk ()" empty_world] e d
  show ?thesis by simp
qed

subsection \<open>C9: permuting the rows\<close>




subsection \<open>C10: identifiers are quoted, not escaped\<close>

text \<open>
  C10. \<^verbatim>\<open>_reformat_columns\<close> returns the names, each between two double quotes,
  separated by commas, and nothing else: its length is the length of the names plus
  two quotes per name plus the commas. So every name stands verbatim between two
  double quotes in the result, in the statement of \<^verbatim>\<open>get_table\<close> with an explicit
  column list, and in the statement of \<^verbatim>\<open>_create_table\<close> (as a primary-key column
  and as a column of the type map), also when the name has a double quote inside.
\<close>

theorem reformat_columns_verbatim:
  "reformat_columns cols =
     (case cols of [] \<Rightarrow> [] | c # cs \<Rightarrow> dq @ c @ dq @ concat (map (\<lambda>x. '','' @ dq @ x @ dq) cs))
   \<and> length (reformat_columns cols) = sum_list (map length cols) + 2 * length cols + (length cols - 1)
   \<and> (c \<in> set cols \<longrightarrow>
        sublist (dq @ c @ dq) (reformat_columns cols)
        \<and> sublist (dq @ c @ dq) (get_table_query schema table_name (Some cols))
        \<and> sublist (dq @ c @ dq) (create_table_query schema table_name types (Some cols)))
   \<and> ((c, ty) \<in> set types \<longrightarrow>
        sublist (dq @ c @ dq) (create_table_query schema table_name types primary_key))"
proof (intro conjI impI)
  show "reformat_columns cols =
     (case cols of [] \<Rightarrow> [] | c # cs \<Rightarrow> dq @ c @ dq @ concat (map (\<lambda>x. '','' @ dq @ x @ dq) cs))"
    by (cases cols) (simp_all add: reformat_columns_def join_Cons comp_def)
  show "length (reformat_columns cols) = sum_list (map length cols) + 2 * length cols + (length cols - 1)"
    by (induction cols) (simp_all add: reformat_columns_def length_join dq_def comp_def)
next
  assume c: "c \<in> set cols"
  show "sublist (dq @ c @ dq) (reformat_columns cols)"
    by (rule sublist_reformat_columns [OF c])
  show "sublist (dq @ c @ dq) (get_table_query schema table_name (Some cols))"
    using sublist_trans_app [OF sublist_reformat_columns [OF c], of "''SELECT ''"]
    by (simp add: get_table_query_def)
  show "sublist (dq @ c @ dq) (create_table_query schema table_name types (Some cols))"
    using sublist_trans_app [OF sublist_reformat_columns [OF c],
            of "''CREATE TABLE '' @ schema @ ''.'' @ dq @ table_name @ dq @ '' (''
                  @ reformat_columns_and_types types @ '', PRIMARY KEY (''" "'') );''"]
    by (simp add: create_table_query_def)
next
  assume "(c, ty) \<in> set types"
  from sublist_trans_app [OF sublist_reformat_columns_and_types [OF this],
          of "''CREATE TABLE '' @ schema @ ''.'' @ dq @ table_name @ dq @ '' (''"]
  show "sublist (dq @ c @ dq) (create_table_query schema table_name types primary_key)"
    by (cases primary_key) (simp_all add: create_table_query_def)
qed

text \<open>The name \<^verbatim>\<open>a"b\<close> is rendered \<^verbatim>\<open>"a"b"\<close>.\<close>

theorem reformat_columns_verbatim_witness:
  "quoted_name \<in> set [quoted_name, ''x'']
   \<and> reformat_columns [quoted_name, ''x''] = dq @ ''a'' @ dq @ ''b'' @ dq @ '','' @ dq @ ''x'' @ dq
   \<and> sublist (dq @ quoted_name @ dq) (get_table_query ''public'' ''t'' (Some [quoted_name, ''x'']))
   \<and> (quoted_name, ''text'') \<in> set [(quoted_name, ''text'')]
   \<and> sublist (dq @ quoted_name @ dq)
        (create_table_query ''public'' ''t'' [(quoted_name, ''text'')] None)"
proof -
  have 1: "quoted_name \<in> set [quoted_name, ''x'']" by simp
  have 2: "(quoted_name, ''text'') \<in> set [(quoted_name, ''text'')]" by simp
  have 3: "reformat_columns [quoted_name, ''x''] = dq @ ''a'' @ dq @ ''b'' @ dq @ '','' @ dq @ ''x'' @ dq"
    by code_simp
  from reformat_columns_verbatim [of "[quoted_name, ''x'']" quoted_name "''public''" "''t''"
         "[(quoted_name, ''text'')]" "''text''" None] 1 2 3
  show ?thesis by blast
qed

end
